theory Spec2Isabelle
  imports Complex_Main
begin

section \<open>Well state of a reservoir simulation: data model\<close>

text \<open>
  The development embeds \<^verbatim>\<open>Opm::WellState\<close> (opm/core/simulator/WellState.hpp).
  A C++ \<^verbatim>\<open>double\<close> is read as a real number: the properties below move constants
  and control targets between arrays and multiply at most once, and rounding is not
  part of what they say. Counts and array indices (\<^verbatim>\<open>int\<close>, \<^verbatim>\<open>size_t\<close>) are
  natural numbers. A read outside an array is undefined behaviour in C++; here it is
  the error \<open>OutOfRange\<close>, and a failed \<^verbatim>\<open>assert\<close> is the error \<open>AssertionFailed\<close>
  (assertions are taken as compiled in). A write \<open>xs[i := v]\<close> leaves the list as it
  is when \<open>i\<close> is outside it; \<^verbatim>\<open>init\<close> writes only inside the vectors it has just
  resized (\<open>phase_index_bound\<close> below for the rates).
\<close>

datatype error = AssertionFailed | OutOfRange

definition bindE :: "error + 'a \<Rightarrow> ('a \<Rightarrow> error + 'b) \<Rightarrow> error + 'b" where
  "bindE m f = (case m of Inl e \<Rightarrow> Inl e | Inr x \<Rightarrow> f x)"

text \<open>Reading element \<open>i\<close> of a C array or of a \<^verbatim>\<open>std::vector\<close>.\<close>

definition read_at :: "'a list \<Rightarrow> nat \<Rightarrow> error + 'a" where
  "read_at xs i = (if i < length xs then Inr (xs ! i) else Inl OutOfRange)"

text \<open>
  \<^verbatim>\<open>std::vector::resize(n, v)\<close>: the first \<open>n\<close> elements are kept, and only the
  elements that are new take the value \<open>v\<close>. \<^verbatim>\<open>resize(n)\<close> on a vector of doubles is
  \<^verbatim>\<open>resize(n, 0.0)\<close>.
\<close>

definition resize :: "nat \<Rightarrow> 'a \<Rightarrow> 'a list \<Rightarrow> 'a list" where
  "resize n v xs = take n xs @ replicate (n - length xs) v"

text \<open>
  Modelled from the spec: the enumeration \<^verbatim>\<open>WellControlType\<close> of
  opm/core/well_controls.h is not among the sources. The spec gives a control a kind
  among BHP, THP, SurfaceRate and other; \<^verbatim>\<open>init\<close> names the first three and
  treats every other kind alike.
\<close>

datatype WellControlType = BHP | THP | SURFACE_RATE | OTHER_CONTROL

text \<open>
  Modelled from the spec: the enumeration \<^verbatim>\<open>WellType\<close> of opm/core/wells.h is not
  among the sources. The spec gives a well the type Injector or Producer; a C
  enumeration is an integer whose enumerators count from 0, so that a well can carry
  a value that is neither, which is what the assertion of \<^verbatim>\<open>init\<close> guards.
\<close>

type_synonym WellType = int

definition INJECTOR :: WellType where
  "INJECTOR = 0"

definition PRODUCER :: WellType where
  "PRODUCER = 1"

text \<open>
  Modelled from the spec: \<^verbatim>\<open>struct WellControls\<close> of opm/core/well_controls.h is
  not among the sources. The spec's data model gives a well an ordered list of
  controls, each with a kind, a scalar target and a per-phase distribution vector, a
  current-control index and a stopped/open flag.
\<close>

record Control =
  kind :: WellControlType
  target :: real
  distr :: "real list"

record WellControls =
  controls :: "Control list"
  current :: nat
  stopped :: bool

text \<open>
  Modelled from the spec: the accessor functions of opm/core/well_controls.h that
  \<^verbatim>\<open>init\<close> calls are not among the sources. Each reads the field of the spec's data
  model it is named after; an accessor that takes an index, or uses the current-control
  index, reads outside the control list when the index is not one of its positions.
\<close>

definition well_controls_well_is_stopped :: "WellControls \<Rightarrow> bool" where
  "well_controls_well_is_stopped ctrl = stopped ctrl"

definition well_controls_get_num :: "WellControls \<Rightarrow> nat" where
  "well_controls_get_num ctrl = length (controls ctrl)"

definition well_controls_iget_type :: "WellControls \<Rightarrow> nat \<Rightarrow> error + WellControlType" where
  "well_controls_iget_type ctrl i = bindE (read_at (controls ctrl) i) (\<lambda>c. Inr (kind c))"

definition well_controls_iget_target :: "WellControls \<Rightarrow> nat \<Rightarrow> error + real" where
  "well_controls_iget_target ctrl i = bindE (read_at (controls ctrl) i) (\<lambda>c. Inr (target c))"

definition well_controls_get_current_type :: "WellControls \<Rightarrow> error + WellControlType" where
  "well_controls_get_current_type ctrl = well_controls_iget_type ctrl (current ctrl)"

definition well_controls_get_current_target :: "WellControls \<Rightarrow> error + real" where
  "well_controls_get_current_target ctrl = well_controls_iget_target ctrl (current ctrl)"

definition well_controls_get_current_distr :: "WellControls \<Rightarrow> error + real list" where
  "well_controls_get_current_distr ctrl =
     bindE (read_at (controls ctrl) (current ctrl)) (\<lambda>c. Inr (distr c))"

text \<open>
  Modelled from the spec: \<^verbatim>\<open>struct Wells\<close> of opm/core/wells.h is not among the
  sources. The record has the fields \<^verbatim>\<open>init\<close> reads; the connections of well \<open>w\<close>
  are the entries \<open>well_connpos[w] .. well_connpos[w+1]-1\<close> of \<open>well_cells\<close>, each the
  cell of one connection (the spec's flattening, in well order then connection order).
\<close>

record Wells =
  number_of_wells :: nat
  number_of_phases :: nat
  type :: "WellType list"
  ctrls :: "WellControls list"
  well_connpos :: "nat list"
  well_cells :: "nat list"

text \<open>The template parameter \<^verbatim>\<open>State\<close>: \<^verbatim>\<open>init\<close> only calls its \<^verbatim>\<open>pressure()\<close>.\<close>

record State =
  pressure :: "real list"

text \<open>The six private vectors of the class, named by their accessors.\<close>

record WellState =
  bhp :: "real list"
  thp :: "real list"
  temperature :: "real list"
  wellRates :: "real list"
  perfRates :: "real list"
  perfPress :: "real list"

text \<open>The implicitly defined default constructor leaves every vector empty.\<close>

definition WellState_default :: WellState where
  "WellState_default =
     \<lparr>bhp = [], thp = [], temperature = [], wellRates = [], perfRates = [], perfPress = []\<rparr>"

section \<open>Initialisation\<close>

text \<open>
  The three loops \<^verbatim>\<open>for (int p = 0; p < np; ++p) wellrates_[np*w + p] = ...\<close>; the
  value stored for phase \<open>p\<close> is \<open>f p\<close>, which fails when it reads outside the
  distribution vector.
\<close>

fun assign_rates :: "nat \<Rightarrow> nat \<Rightarrow> (nat \<Rightarrow> error + real) \<Rightarrow> nat list \<Rightarrow> real list
    \<Rightarrow> error + real list" where
  "assign_rates np w f [] rates = Inr rates"
| "assign_rates np w f (p # ps) rates =
     bindE (f p) (\<lambda>v. assign_rates np w f ps (rates[np * w + p := v]))"

text \<open>
  The scan of the whole control list of an open well (step 2): the pair is
  \<open>(bhp_[w], thp_[w])\<close>, and a later control of the same kind overwrites an earlier one.
\<close>

fun scan_controls :: "WellControls \<Rightarrow> nat list \<Rightarrow> real \<times> real \<Rightarrow> error + real \<times> real" where
  "scan_controls ctrl [] bt = Inr bt"
| "scan_controls ctrl (i # is) bt =
     bindE (well_controls_iget_type ctrl i) (\<lambda>k.
       if k = BHP then
         bindE (well_controls_iget_target ctrl i) (\<lambda>t. scan_controls ctrl is (t, snd bt))
       else if k = THP then
         bindE (well_controls_iget_target ctrl i) (\<lambda>t. scan_controls ctrl is (fst bt, t))
       else scan_controls ctrl is bt)"

text \<open>\<^verbatim>\<open>wells->well_cells[wells->well_connpos[w]]\<close>, read without any check.\<close>

definition first_cell :: "Wells \<Rightarrow> nat \<Rightarrow> error + nat" where
  "first_cell wells w = bindE (read_at (well_connpos wells) w) (\<lambda>pos. read_at (well_cells wells) pos)"

text \<open>The literal \<^verbatim>\<open>-1e100\<close>, the value that marks a pressure as not set.\<close>

definition unset :: real where
  "unset = - (10 ^ 100)"

text \<open>
  The branch of the loop body for a stopped well: zero rates, then the switch on the
  kind of the current control (its \<^verbatim>\<open>default\<close> case is the last \<open>else\<close>). The BHP
  case leaves \<open>thp_[w]\<close> as it is and the THP case leaves \<open>bhp_[w]\<close> as it is.
\<close>

definition init_stopped_well ::
    "Wells \<Rightarrow> State \<Rightarrow> nat \<Rightarrow> WellControls \<Rightarrow> WellState \<Rightarrow> error + WellState" where
  "init_stopped_well wells state w ctrl ws =
     (let np = number_of_phases wells in
      bindE (assign_rates np w (\<lambda>p. Inr 0) [0..<np] (wellRates ws)) (\<lambda>rates.
      bindE (well_controls_get_current_type ctrl) (\<lambda>k.
        if k = BHP then
          bindE (well_controls_get_current_target ctrl) (\<lambda>t.
            Inr (ws\<lparr>wellRates := rates, bhp := (bhp ws)[w := t]\<rparr>))
        else if k = THP then
          bindE (well_controls_get_current_target ctrl) (\<lambda>t.
            Inr (ws\<lparr>wellRates := rates, thp := (thp ws)[w := t]\<rparr>))
        else
          bindE (first_cell wells w) (\<lambda>c.
          bindE (read_at (pressure state) c) (\<lambda>pr.
            Inr (ws\<lparr>wellRates := rates,
                     bhp := (bhp ws)[w := pr],
                     thp := (thp ws)[w := unset]\<rparr>))))))"

text \<open>
  The branch for an open well: (1) the rates, from the control when its kind is
  SURFACE_RATE and a signed \<open>1e-14\<close> otherwise; (2) both pressures set to \<open>-1e100\<close>
  and then overwritten by the scan of the control list; (3) when the current control
  is neither BHP nor THP, \<open>bhp_[w]\<close> overwritten from the pressure of the first cell.
\<close>

definition init_open_well ::
    "Wells \<Rightarrow> State \<Rightarrow> nat \<Rightarrow> WellType \<Rightarrow> WellControls \<Rightarrow> WellState \<Rightarrow> error + WellState" where
  "init_open_well wells state w ty ctrl ws =
     (let np = number_of_phases wells in
      bindE (well_controls_get_current_type ctrl) (\<lambda>k.
      bindE (if k = SURFACE_RATE
             then bindE (well_controls_get_current_target ctrl) (\<lambda>rate_target.
                  bindE (well_controls_get_current_distr ctrl) (\<lambda>d.
                    assign_rates np w (\<lambda>p. bindE (read_at d p) (\<lambda>dp. Inr (rate_target * dp)))
                      [0..<np] (wellRates ws)))
             else (let small_rate = 1 / 10 ^ 14;
                       sign = (if ty = INJECTOR then 1 else - 1)
                   in assign_rates np w (\<lambda>p. Inr (small_rate * sign)) [0..<np] (wellRates ws)))
        (\<lambda>rates.
      bindE (scan_controls ctrl [0..<well_controls_get_num ctrl] (unset, unset)) (\<lambda>bt.
      (let ws1 = ws\<lparr>wellRates := rates, thp := (thp ws)[w := snd bt], bhp := (bhp ws)[w := fst bt]\<rparr>
       in if k = BHP then Inr ws1
          else if k = THP then Inr ws1
          else
            bindE (first_cell wells w) (\<lambda>c.
            bindE (read_at (pressure state) c) (\<lambda>pr.
              (let safety_factor = (if ty = INJECTOR then 1.01 else 0.99)
               in Inr (ws1\<lparr>bhp := (bhp ws1)[w := safety_factor * pr]\<rparr>)))))))))"

text \<open>
  The body of the loop over the wells, for well \<open>w\<close>: the assertion on the well type,
  then one of the two branches.
\<close>

definition init_well :: "Wells \<Rightarrow> State \<Rightarrow> nat \<Rightarrow> WellState \<Rightarrow> error + WellState" where
  "init_well wells state w ws =
     bindE (read_at (type wells) w) (\<lambda>ty.
       if \<not> (ty = INJECTOR \<or> ty = PRODUCER) then Inl AssertionFailed
       else bindE (read_at (ctrls wells) w) (\<lambda>ctrl.
         if well_controls_well_is_stopped ctrl
         then init_stopped_well wells state w ctrl ws
         else init_open_well wells state w ty ctrl ws))"

text \<open>\<^verbatim>\<open>for (int w = 0; w < nw; ++w)\<close>, stopping at the first failure.\<close>

fun init_wells :: "Wells \<Rightarrow> State \<Rightarrow> nat list \<Rightarrow> WellState \<Rightarrow> error + WellState" where
  "init_wells wells state [] ws = Inr ws"
| "init_wells wells state (w # rest) ws =
     bindE (init_well wells state w ws) (\<lambda>ws'. init_wells wells state rest ws')"

text \<open>
  \<^verbatim>\<open>WellState::init(wells, state)\<close> on the object \<open>ws\<close>; a null \<^verbatim>\<open>wells\<close> pointer is
  \<open>None\<close> and leaves the object as it is.
\<close>

definition init :: "WellState \<Rightarrow> Wells option \<Rightarrow> State \<Rightarrow> error + WellState" where
  "init ws wells_ptr state =
     (case wells_ptr of
        None \<Rightarrow> Inr ws
      | Some wells \<Rightarrow>
          (let nw = number_of_wells wells;
               np = number_of_phases wells;
               ws0 = ws\<lparr>bhp := resize nw 0 (bhp ws),
                        thp := resize nw 0 (thp ws),
                        temperature := resize nw (273.15 + 20) (temperature ws),
                        wellRates := resize (nw * np) 0 (wellRates ws)\<rparr>
           in bindE (init_wells wells state [0..<nw] ws0) (\<lambda>ws1.
              bindE (read_at (well_connpos wells) nw) (\<lambda>n.
                Inr (ws1\<lparr>perfRates := resize n 0 (perfRates ws1),
                         perfPress := resize n unset (perfPress ws1)\<rparr>)))))"

section \<open>Restart offsets\<close>

definition getRestartBhpOffset :: "WellState \<Rightarrow> nat" where
  "getRestartBhpOffset ws = 0"

definition getRestartPerfPressOffset :: "WellState \<Rightarrow> nat" where
  "getRestartPerfPressOffset ws = length (bhp ws)"

definition getRestartPerfRatesOffset :: "WellState \<Rightarrow> nat" where
  "getRestartPerfRatesOffset ws = getRestartPerfPressOffset ws + length (perfPress ws)"

definition getRestartTemperatureOffset :: "WellState \<Rightarrow> nat" where
  "getRestartTemperatureOffset ws = getRestartPerfRatesOffset ws + length (perfRates ws)"

definition getRestartWellRatesOffset :: "WellState \<Rightarrow> nat" where
  "getRestartWellRatesOffset ws = getRestartTemperatureOffset ws + length (temperature ws)"

section \<open>Well-formed input\<close>

text \<open>
  The predicates below describe the input the properties speak about; they are not part
  of the program. \<open>at_most_one_BHP\<close> is the policy assumption written next to the scan
  (\<^verbatim>\<open>Assumes only one THP / BHP control\<close>).
\<close>

definition at_most_one_BHP :: "WellControls \<Rightarrow> bool" where
  "at_most_one_BHP ctrl \<longleftrightarrow> length (filter (\<lambda>c. kind c = BHP) (controls ctrl)) \<le> 1"

text \<open>
  \<open>tables_ok\<close>: the per-well arrays have one entry per well and the connection table
  starts at 0 and has one entry more. \<open>num_connections\<close> is the number of connections
  of a well as the table encodes it, \<open>connections_ok\<close> says that a well has at least
  one connection and that the pressure field covers its first cell, and \<open>controls_ok\<close>
  that the current control is one of the well's controls and every control carries one
  distribution entry per phase.
\<close>

definition tables_ok :: "Wells \<Rightarrow> bool" where
  "tables_ok wells \<longleftrightarrow>
     length (type wells) = number_of_wells wells
     \<and> length (ctrls wells) = number_of_wells wells
     \<and> length (well_connpos wells) = number_of_wells wells + 1
     \<and> well_connpos wells ! 0 = 0"

definition num_connections :: "Wells \<Rightarrow> nat \<Rightarrow> nat" where
  "num_connections wells w = well_connpos wells ! (w + 1) - well_connpos wells ! w"

definition total_connections :: "Wells \<Rightarrow> nat" where
  "total_connections wells = sum_list (map (num_connections wells) [0..<number_of_wells wells])"

definition connections_ok :: "Wells \<Rightarrow> State \<Rightarrow> nat \<Rightarrow> bool" where
  "connections_ok wells state w \<longleftrightarrow>
     well_connpos wells ! w < well_connpos wells ! (w + 1)
     \<and> well_connpos wells ! (w + 1) \<le> length (well_cells wells)
     \<and> well_cells wells ! (well_connpos wells ! w) < length (pressure state)"

definition controls_ok :: "Wells \<Rightarrow> nat \<Rightarrow> bool" where
  "controls_ok wells w \<longleftrightarrow>
     current (ctrls wells ! w) < length (controls (ctrls wells ! w))
     \<and> list_all (\<lambda>c. length (distr c) = number_of_phases wells) (controls (ctrls wells ! w))"

definition type_ok :: "Wells \<Rightarrow> nat \<Rightarrow> bool" where
  "type_ok wells w \<longleftrightarrow> type wells ! w = INJECTOR \<or> type wells ! w = PRODUCER"

definition structure_ok :: "Wells \<Rightarrow> State \<Rightarrow> bool" where
  "structure_ok wells state \<longleftrightarrow>
     tables_ok wells
     \<and> list_all (\<lambda>w. connections_ok wells state w \<and> controls_ok wells w)
          [0..<number_of_wells wells]"

definition types_ok :: "Wells \<Rightarrow> bool" where
  "types_ok wells \<longleftrightarrow> list_all (type_ok wells) [0..<number_of_wells wells]"

definition well_formed :: "Wells \<Rightarrow> State \<Rightarrow> bool" where
  "well_formed wells state \<longleftrightarrow> structure_ok wells state \<and> types_ok wells"

text \<open>
  What one pass of the loop body may change: the rates of well \<open>w\<close> and entry \<open>w\<close> of
  the two pressure vectors.
\<close>

definition updated_at :: "Wells \<Rightarrow> nat \<Rightarrow> WellState \<Rightarrow> WellState \<Rightarrow> bool" where
  "updated_at wells w ws ws' \<longleftrightarrow>
     (\<exists>f rates b t.
        assign_rates (number_of_phases wells) w f [0..<number_of_phases wells] (wellRates ws)
          = Inr rates
        \<and> wellRates ws' = rates \<and> bhp ws' = (bhp ws)[w := b] \<and> thp ws' = (thp ws)[w := t]
        \<and> temperature ws' = temperature ws \<and> perfRates ws' = perfRates ws
        \<and> perfPress ws' = perfPress ws)"

section \<open>Column extraction\<close>

text \<open>
  Modelled from the spec: \<^verbatim>\<open>extractColumn\<close> (opm/core/ColumnExtract.hpp) and the grid
  built by \<^verbatim>\<open>GridManager\<close> (opm/core/GridManager.hpp) are not among the sources;
  only their test is. The spec (4.2) lets a grid expose its cell count and the logical
  (I, J, K) coordinates of each cell, groups the cells by (I, J), orders each group by
  increasing K, and outputs one column per (I, J) pair that holds at least one cell,
  in ascending (J, I) order. For the structured grid the spec and the test number
  cell (i, j, k) as \<open>i + j * size_x + k * size_x * size_y\<close>. A grid is its Cartesian
  dimensions and the coordinates of its cells, indexed by cell id.
\<close>

record Grid =
  cartdims :: "nat \<times> nat \<times> nat"
  cell_ijk :: "(nat \<times> nat \<times> nat) list"

text \<open>
  Modelled from the spec: the grid \<^verbatim>\<open>GridManager(size_x, size_y, size_z)\<close> builds.
  Every cell is active and cell (i, j, k) has the id \<open>i + j * size_x + k * size_x * size_y\<close>,
  so cell \<open>c\<close> has the coordinates below.
\<close>

definition GridManager :: "nat \<Rightarrow> nat \<Rightarrow> nat \<Rightarrow> Grid" where
  "GridManager size_x size_y size_z =
     \<lparr>cartdims = (size_x, size_y, size_z),
      cell_ijk = map (\<lambda>c. (c mod size_x, (c div size_x) mod size_y, c div (size_x * size_y)))
                   [0..<size_x * size_y * size_z]\<rparr>"

text \<open>Modelled from the spec: the logical coordinates of cell \<open>c\<close> of a grid.\<close>

definition cell_i :: "Grid \<Rightarrow> nat \<Rightarrow> nat" where
  "cell_i grid c = fst (cell_ijk grid ! c)"

definition cell_j :: "Grid \<Rightarrow> nat \<Rightarrow> nat" where
  "cell_j grid c = fst (snd (cell_ijk grid ! c))"

definition cell_k :: "Grid \<Rightarrow> nat \<Rightarrow> nat" where
  "cell_k grid c = snd (snd (cell_ijk grid ! c))"

text \<open>
  Modelled from the spec: the column at the horizontal position (I, J), given as the
  pair \<open>(j, i)\<close>: the cells of the grid with these coordinates, ordered by increasing K.
\<close>

definition column_of :: "Grid \<Rightarrow> nat \<times> nat \<Rightarrow> nat list" where
  "column_of grid ji =
     sort_key (cell_k grid)
       (filter (\<lambda>c. cell_i grid c = snd ji \<and> cell_j grid c = fst ji)
          [0..<length (cell_ijk grid)])"

text \<open>
  Modelled from the spec: \<^verbatim>\<open>extractColumn\<close> (the spec's \<open>extractColumns\<close>), one
  column per (I, J) pair that holds at least one cell, in ascending (J, I) order.
\<close>

definition extractColumn :: "Grid \<Rightarrow> nat list list" where
  "extractColumn grid =
     (case cartdims grid of (size_x, size_y, size_z) \<Rightarrow>
        filter (\<lambda>col. col \<noteq> [])
          (map (column_of grid) (List.product [0..<size_y] [0..<size_x])))"

text \<open>The column the claim expects at position \<open>(i, j)\<close> of a structured grid.\<close>

definition structured_column :: "nat \<Rightarrow> nat \<Rightarrow> nat \<Rightarrow> nat \<Rightarrow> nat \<Rightarrow> nat list" where
  "structured_column sx sy sz i j = map (\<lambda>k. i + j * sx + k * sx * sy) [0..<sz]"

section \<open>Concrete inputs\<close>

text \<open>
  Five wells with two phases: an open injector under a surface-rate control that also
  holds a BHP control, a stopped producer under a BHP control, an open injector under
  its only BHP control, a stopped producer and an open producer under a control of
  another kind.
\<close>

definition example_wells :: Wells where
  "example_wells =
     \<lparr>number_of_wells = 5, number_of_phases = 2,
      type = [INJECTOR, PRODUCER, INJECTOR, PRODUCER, PRODUCER],
      ctrls =
        [\<lparr>controls = [\<lparr>kind = SURFACE_RATE, target = 100, distr = [0.3, 0.7]\<rparr>,
                      \<lparr>kind = BHP, target = 500, distr = [0, 0]\<rparr>],
          current = 0, stopped = False\<rparr>,
         \<lparr>controls = [\<lparr>kind = BHP, target = 5000, distr = [0, 0]\<rparr>],
          current = 0, stopped = True\<rparr>,
         \<lparr>controls = [\<lparr>kind = OTHER_CONTROL, target = 7, distr = [1, 0]\<rparr>,
                      \<lparr>kind = BHP, target = 250, distr = [0, 0]\<rparr>],
          current = 1, stopped = False\<rparr>,
         \<lparr>controls = [\<lparr>kind = OTHER_CONTROL, target = 9, distr = [0, 1]\<rparr>],
          current = 0, stopped = True\<rparr>,
         \<lparr>controls = [\<lparr>kind = OTHER_CONTROL, target = 3, distr = [1, 0]\<rparr>],
          current = 0, stopped = False\<rparr>],
      well_connpos = [0, 1, 3, 4, 6, 7],
      well_cells = [2, 0, 1, 3, 1, 2, 0]\<rparr>"

definition example_state :: State where
  "example_state = \<lparr>pressure = [100, 200, 300, 400]\<rparr>"

definition example_result :: WellState where
  "example_result =
     \<lparr>bhp = [303, 5000, 250, 200, 99],
      thp = [- (10 ^ 100), 0, - (10 ^ 100), - (10 ^ 100), - (10 ^ 100)],
      temperature = [293.15, 293.15, 293.15, 293.15, 293.15],
      wellRates = [30, 70, 0, 0, 1 / 10 ^ 14, 1 / 10 ^ 14, 0, 0,
                   - (1 / 10 ^ 14), - (1 / 10 ^ 14)],
      perfRates = [0, 0, 0, 0, 0, 0, 0],
      perfPress = [- (10 ^ 100), - (10 ^ 100), - (10 ^ 100), - (10 ^ 100),
                   - (10 ^ 100), - (10 ^ 100), - (10 ^ 100)]\<rparr>"

text \<open>The same wells, the second one with a type that is no enumerator.\<close>

definition bad_type_wells :: Wells where
  "bad_type_wells = example_wells\<lparr>type := [INJECTOR, 2, INJECTOR, PRODUCER, PRODUCER]\<rparr>"

text \<open>
  Two stopped wells under a control of another kind; the first has no connection, so
  that \<open>well_cells[well_connpos[0]]\<close> is the first cell of the second well.
\<close>

definition no_connection_wells :: Wells where
  "no_connection_wells =
     \<lparr>number_of_wells = 2, number_of_phases = 1,
      type = [INJECTOR, PRODUCER],
      ctrls =
        [\<lparr>controls = [\<lparr>kind = OTHER_CONTROL, target = 0, distr = [1]\<rparr>],
          current = 0, stopped = True\<rparr>,
         \<lparr>controls = [\<lparr>kind = OTHER_CONTROL, target = 0, distr = [1]\<rparr>],
          current = 0, stopped = True\<rparr>],
      well_connpos = [0, 0, 1],
      well_cells = [3]\<rparr>"

definition no_connection_state :: State where
  "no_connection_state = \<lparr>pressure = [10, 20, 30, 40]\<rparr>"

definition no_connection_result :: WellState where
  "no_connection_result =
     \<lparr>bhp = [40, 40], thp = [- (10 ^ 100), - (10 ^ 100)], temperature = [293.15, 293.15],
      wellRates = [0, 0], perfRates = [0], perfPress = [- (10 ^ 100)]\<rparr>"

section \<open>Reading, resizing and the inner loops\<close>

lemma bindE_Inr_iff: "bindE m f = Inr y \<longleftrightarrow> (\<exists>x. m = Inr x \<and> f x = Inr y)"
  by (cases m) (simp_all add: bindE_def)

lemma bindE_Inr [simp]: "bindE (Inr x) f = f x"
  by (simp add: bindE_def)

lemma bindE_Inl [simp]: "bindE (Inl e) f = Inl e"
  by (simp add: bindE_def)

lemma read_at_Inr_iff: "read_at xs i = Inr x \<longleftrightarrow> i < length xs \<and> x = xs ! i"
  by (auto simp: read_at_def)

lemma read_at_in_range: "i < length xs \<Longrightarrow> read_at xs i = Inr (xs ! i)"
  by (simp add: read_at_def)

lemma length_resize [simp]: "length (resize n v xs) = n"
  by (simp add: resize_def)

lemma resize_Nil: "resize n v [] = replicate n v"
  by (simp add: resize_def)

lemma assign_rates_length:
  "assign_rates np w f ps rates = Inr rates' \<Longrightarrow> length rates' = length rates"
  by (induction ps arbitrary: rates) (auto simp: bindE_Inr_iff)

lemma assign_rates_frame:
  "assign_rates np w f ps rates = Inr rates' \<Longrightarrow> \<forall>p \<in> set ps. i \<noteq> np * w + p
    \<Longrightarrow> rates' ! i = rates ! i"
  by (induction ps arbitrary: rates) (auto simp: bindE_Inr_iff)

lemma assign_rates_value:
  "assign_rates np w f ps rates = Inr rates' \<Longrightarrow> p \<in> set ps \<Longrightarrow> np * w + p < length rates
    \<Longrightarrow> f p = Inr (rates' ! (np * w + p))"
proof (induction ps arbitrary: rates)
  case Nil
  then show ?case by simp
next
  case (Cons q ps)
  from Cons.prems(1) obtain v where v: "f q = Inr v"
    and rest: "assign_rates np w f ps (rates[np * w + q := v]) = Inr rates'"
    by (auto simp: bindE_Inr_iff)
  show ?case
  proof (cases "p \<in> set ps")
    case True
    with Cons.IH [OF rest] Cons.prems(3) show ?thesis by simp
  next
    case False
    with Cons.prems(2) have pq: "p = q" by simp
    from False have "\<forall>r \<in> set ps. np * w + p \<noteq> np * w + r" by auto
    from assign_rates_frame [OF rest this] Cons.prems(3) pq v show ?thesis by simp
  qed
qed

lemma assign_rates_total:
  "\<forall>p \<in> set ps. \<exists>v. f p = Inr v \<Longrightarrow> \<exists>rates'. assign_rates np w f ps rates = Inr rates'"
  by (induction ps arbitrary: rates) (auto simp: bindE_Inr_iff)

lemma iget_type_Inr_iff:
  "well_controls_iget_type ctrl i = Inr k \<longleftrightarrow> i < length (controls ctrl) \<and> k = kind (controls ctrl ! i)"
  by (auto simp: well_controls_iget_type_def bindE_Inr_iff read_at_Inr_iff)

lemma iget_target_Inr_iff:
  "well_controls_iget_target ctrl i = Inr t \<longleftrightarrow> i < length (controls ctrl) \<and> t = target (controls ctrl ! i)"
  by (auto simp: well_controls_iget_target_def bindE_Inr_iff read_at_Inr_iff)

lemma scan_controls_total:
  "\<forall>i \<in> set is. i < length (controls ctrl) \<Longrightarrow> \<exists>bt'. scan_controls ctrl is bt = Inr bt'"
proof (induction "is" arbitrary: bt)
  case Nil
  then show ?case by simp
next
  case (Cons i "is")
  then have i: "i < length (controls ctrl)" by simp
  then have ty: "well_controls_iget_type ctrl i = Inr (kind (controls ctrl ! i))"
    and tg: "well_controls_iget_target ctrl i = Inr (target (controls ctrl ! i))"
    by (simp_all add: iget_type_Inr_iff iget_target_Inr_iff)
  from Cons.prems have rest: "\<forall>j \<in> set is. j < length (controls ctrl)" by simp
  show ?case
    using Cons.IH [OF rest] by (simp add: ty tg)
qed

lemma scan_controls_bhp:
  assumes "\<forall>i \<in> set is. i < length (controls ctrl)"
    and "\<forall>i \<in> set is. kind (controls ctrl ! i) = BHP \<longrightarrow> i = cur"
    and "kind (controls ctrl ! cur) = BHP"
    and "cur \<in> set is \<or> fst bt = target (controls ctrl ! cur)"
    and "scan_controls ctrl is bt = Inr bt'"
  shows "fst bt' = target (controls ctrl ! cur)"
  using assms
proof (induction "is" arbitrary: bt)
  case Nil
  then show ?case by simp
next
  case (Cons i "is")
  then have i: "i < length (controls ctrl)" by simp
  then have ty: "well_controls_iget_type ctrl i = Inr (kind (controls ctrl ! i))"
    and tg: "well_controls_iget_target ctrl i = Inr (target (controls ctrl ! i))"
    by (simp_all add: iget_type_Inr_iff iget_target_Inr_iff)
  from Cons.prems have rest: "\<forall>j \<in> set is. j < length (controls ctrl)"
    and uniq: "\<forall>j \<in> set is. kind (controls ctrl ! j) = BHP \<longrightarrow> j = cur" by simp_all
  show ?case
  proof (cases "kind (controls ctrl ! i) = BHP")
    case True
    with Cons.prems(2) have "i = cur" by simp
    with True Cons.prems(5) ty tg
    have "scan_controls ctrl is (target (controls ctrl ! cur), snd bt) = Inr bt'" by simp
    from Cons.IH [OF rest uniq Cons.prems(3) _ this] show ?thesis by simp
  next
    case False
    with Cons.prems(3) have ne: "i \<noteq> cur" by auto
    from False Cons.prems(5) ty tg
    obtain bt1 where step: "scan_controls ctrl is bt1 = Inr bt'" and fst1: "fst bt1 = fst bt"
      by (cases "kind (controls ctrl ! i) = THP") auto
    from ne Cons.prems(4) fst1 have "cur \<in> set is \<or> fst bt1 = target (controls ctrl ! cur)"
      by auto
    from Cons.IH [OF rest uniq Cons.prems(3) this step] show ?thesis .
  qed
qed

lemma filter_at_most_one:
  assumes "length (filter P xs) \<le> 1" and "i < length xs" and "j < length xs"
    and "P (xs ! i)" and "P (xs ! j)"
  shows "i = j"
proof (rule ccontr)
  assume ne: "i \<noteq> j"
  have two: "2 \<le> length (filter P xs)" if "a < b" "b < length xs" "P (xs ! a)" "P (xs ! b)" for a b
  proof -
    from that have a: "a < length xs" by simp
    have xs: "xs = take a xs @ xs ! a # drop (Suc a) xs"
      by (rule id_take_nth_drop [OF a])
    from that have "xs ! b = drop (Suc a) xs ! (b - Suc a)" by simp
    moreover from that have "b - Suc a < length (drop (Suc a) xs)" by simp
    ultimately have "xs ! b \<in> set (drop (Suc a) xs)" by (simp only: nth_mem)
    with that(4) have "filter P (drop (Suc a) xs) \<noteq> []" by (auto simp: filter_empty_conv)
    then have "1 \<le> length (filter P (drop (Suc a) xs))" by (cases "filter P (drop (Suc a) xs)") simp_all
    moreover have "length (filter P xs) = length (filter P (take a xs)) + length (filter P (xs ! a # drop (Suc a) xs))"
      by (subst xs) simp
    ultimately show ?thesis using that(3) by simp
  qed
  from ne consider "i < j" | "j < i" by linarith
  then show False
    using two [of i j] two [of j i] assms by cases auto
qed

section \<open>The loop over the wells changes one well at a time\<close>

lemma updated_atI:
  "assign_rates (number_of_phases wells) w f [0..<number_of_phases wells] (wellRates ws) = Inr rates
   \<Longrightarrow> wellRates ws' = rates \<Longrightarrow> bhp ws' = (bhp ws)[w := b] \<Longrightarrow> thp ws' = (thp ws)[w := t]
   \<Longrightarrow> temperature ws' = temperature ws \<Longrightarrow> perfRates ws' = perfRates ws
   \<Longrightarrow> perfPress ws' = perfPress ws \<Longrightarrow> updated_at wells w ws ws'"
  unfolding updated_at_def by blast

lemma init_stopped_well_shape:
  assumes "init_stopped_well wells state w ctrl ws = Inr ws'"
  shows "updated_at wells w ws ws'"
proof -
  let ?np = "number_of_phases wells"
  from assms obtain rates k where
    r: "assign_rates ?np w (\<lambda>p. Inr 0) [0..<?np] (wellRates ws) = Inr rates"
    and k: "well_controls_get_current_type ctrl = Inr k"
    by (auto simp: init_stopped_well_def Let_def bindE_Inr_iff)
  show ?thesis
  proof (cases "k = BHP")
    case True
    with assms r k obtain b where "ws' = ws\<lparr>wellRates := rates, bhp := (bhp ws)[w := b]\<rparr>"
      by (auto simp: init_stopped_well_def Let_def bindE_Inr_iff)
    then show ?thesis
      by (intro updated_atI [OF r, where b = b and t = "thp ws ! w"]) simp_all
  next
    case False
    show ?thesis
    proof (cases "k = THP")
      case True
      with assms r k obtain t where "ws' = ws\<lparr>wellRates := rates, thp := (thp ws)[w := t]\<rparr>"
        by (auto simp: init_stopped_well_def Let_def bindE_Inr_iff)
      then show ?thesis
        by (intro updated_atI [OF r, where t = t and b = "bhp ws ! w"]) simp_all
    next
      case False
      with \<open>k \<noteq> BHP\<close> assms r k obtain pr where
        "ws' = ws\<lparr>wellRates := rates, bhp := (bhp ws)[w := pr], thp := (thp ws)[w := unset]\<rparr>"
        by (auto simp: init_stopped_well_def Let_def bindE_Inr_iff)
      then show ?thesis
        by (intro updated_atI [OF r, where t = unset and b = pr]) simp_all
    qed
  qed
qed

lemma init_open_well_shape:
  assumes "init_open_well wells state w ty ctrl ws = Inr ws'"
  shows "updated_at wells w ws ws'"
proof -
  let ?np = "number_of_phases wells"
  from assms obtain k rates bt where
    k: "well_controls_get_current_type ctrl = Inr k"
    and r: "(if k = SURFACE_RATE
             then bindE (well_controls_get_current_target ctrl) (\<lambda>rate_target.
                  bindE (well_controls_get_current_distr ctrl) (\<lambda>d.
                    assign_rates ?np w (\<lambda>p. bindE (read_at d p) (\<lambda>dp. Inr (rate_target * dp)))
                      [0..<?np] (wellRates ws)))
             else (let small_rate = 1 / 10 ^ 14;
                       sign = (if ty = INJECTOR then 1 else - 1)
                   in assign_rates ?np w (\<lambda>p. Inr (small_rate * sign)) [0..<?np] (wellRates ws)))
            = Inr rates"
    and rest: "(let ws1 = ws\<lparr>wellRates := rates, thp := (thp ws)[w := snd bt], bhp := (bhp ws)[w := fst bt]\<rparr>
       in if k = BHP then Inr ws1
          else if k = THP then Inr ws1
          else
            bindE (first_cell wells w) (\<lambda>c.
            bindE (read_at (pressure state) c) (\<lambda>pr.
              (let safety_factor = (if ty = INJECTOR then 1.01 else 0.99)
               in Inr (ws1\<lparr>bhp := (bhp ws1)[w := safety_factor * pr]\<rparr>))))) = Inr ws'"
    unfolding init_open_well_def Let_def bindE_Inr_iff by blast
  from r obtain f where f: "assign_rates ?np w f [0..<?np] (wellRates ws) = Inr rates"
    by (cases "k = SURFACE_RATE") (auto simp: bindE_Inr_iff Let_def)
  from rest obtain b where
    "ws' = ws\<lparr>wellRates := rates, thp := (thp ws)[w := snd bt], bhp := (bhp ws)[w := b]\<rparr>"
    by (cases "k = BHP"; cases "k = THP") (auto simp: bindE_Inr_iff Let_def)
  then show ?thesis
    by (intro updated_atI [OF f, where t = "snd bt" and b = b]) simp_all
qed

lemma init_well_shape:
  assumes "init_well wells state w ws = Inr ws'"
  shows "updated_at wells w ws ws'"
  using assms
  by (auto simp: init_well_def bindE_Inr_iff
      intro: init_stopped_well_shape init_open_well_shape split: if_splits)

lemma phase_index_distinct:
  fixes np :: nat
  assumes "v \<noteq> w" and "p < np" and "q < np"
  shows "np * v + q \<noteq> np * w + p"
proof -
  have less: "np * a + x < np * b + y" if "a < b" "x < np" for a b x y :: nat
  proof -
    from that have "np * a + x < np * Suc a" by simp
    also from that have "np * Suc a \<le> np * b" by (intro mult_le_mono2) simp
    finally show ?thesis by simp
  qed
  from assms(1) consider "v < w" | "w < v" by linarith
  then show ?thesis
    using less [of v w q p] less [of w v p q] assms by cases auto
qed

lemma updated_at_frame:
  assumes "updated_at wells w ws ws'"
  shows "length (bhp ws') = length (bhp ws)" "length (thp ws') = length (thp ws)"
    "length (wellRates ws') = length (wellRates ws)"
    "temperature ws' = temperature ws" "perfRates ws' = perfRates ws"
    "perfPress ws' = perfPress ws"
    "v \<noteq> w \<Longrightarrow> bhp ws' ! v = bhp ws ! v"
    "v \<noteq> w \<Longrightarrow> thp ws' ! v = thp ws ! v"
    "v \<noteq> w \<Longrightarrow> q < number_of_phases wells \<Longrightarrow>
       wellRates ws' ! (number_of_phases wells * v + q) = wellRates ws ! (number_of_phases wells * v + q)"
proof -
  from assms obtain f rates b t where
    r: "assign_rates (number_of_phases wells) w f [0..<number_of_phases wells] (wellRates ws)
          = Inr rates"
    and eqs: "wellRates ws' = rates" "bhp ws' = (bhp ws)[w := b]" "thp ws' = (thp ws)[w := t]"
      "temperature ws' = temperature ws" "perfRates ws' = perfRates ws"
      "perfPress ws' = perfPress ws"
    unfolding updated_at_def by blast
  from eqs show "length (bhp ws') = length (bhp ws)" "length (thp ws') = length (thp ws)"
    "temperature ws' = temperature ws" "perfRates ws' = perfRates ws"
    "perfPress ws' = perfPress ws" by simp_all
  from eqs assign_rates_length [OF r]
  show "length (wellRates ws') = length (wellRates ws)" by simp
  from eqs show "v \<noteq> w \<Longrightarrow> bhp ws' ! v = bhp ws ! v" "v \<noteq> w \<Longrightarrow> thp ws' ! v = thp ws ! v"
    by simp_all
  show "wellRates ws' ! (number_of_phases wells * v + q) = wellRates ws ! (number_of_phases wells * v + q)"
    if "v \<noteq> w" "q < number_of_phases wells"
  proof -
    from that have "\<forall>p \<in> set [0..<number_of_phases wells].
        number_of_phases wells * v + q \<noteq> number_of_phases wells * w + p"
      using phase_index_distinct [of v w _ "number_of_phases wells" q] by auto
    from assign_rates_frame [OF r this] eqs show ?thesis by simp
  qed
qed

lemma init_wells_append:
  "init_wells wells state (xs @ ys) ws
     = bindE (init_wells wells state xs ws) (init_wells wells state ys)"
  by (induction xs arbitrary: ws) (auto simp: bindE_def split: sum.splits)

lemma init_wells_frame:
  assumes "init_wells wells state xs ws = Inr ws'" and "v \<notin> set xs"
  shows "length (bhp ws') = length (bhp ws) \<and> length (thp ws') = length (thp ws)
    \<and> length (wellRates ws') = length (wellRates ws)
    \<and> temperature ws' = temperature ws \<and> perfRates ws' = perfRates ws
    \<and> perfPress ws' = perfPress ws
    \<and> bhp ws' ! v = bhp ws ! v \<and> thp ws' ! v = thp ws ! v
    \<and> (\<forall>q < number_of_phases wells.
          wellRates ws' ! (number_of_phases wells * v + q)
            = wellRates ws ! (number_of_phases wells * v + q))"
  using assms
proof (induction xs arbitrary: ws)
  case Nil
  then show ?case by simp
next
  case (Cons w xs)
  from Cons.prems(1) obtain ws1 where
    one: "init_well wells state w ws = Inr ws1" and rest: "init_wells wells state xs ws1 = Inr ws'"
    by (auto simp: bindE_Inr_iff)
  from Cons.prems(2) have vw: "v \<noteq> w" and v: "v \<notin> set xs" by simp_all
  note fr = updated_at_frame [OF init_well_shape [OF one]]
  from Cons.IH [OF rest v] fr(1-6) fr(7-8) [OF vw] fr(9) [OF vw]
  show ?case by simp
qed

section \<open>What each branch stores\<close>

lemma init_well_Inr_cases:
  assumes "init_well wells state w ws = Inr ws'"
  shows "w < length (type wells) \<and> w < length (ctrls wells)
    \<and> (type wells ! w = INJECTOR \<or> type wells ! w = PRODUCER)
    \<and> (if well_controls_well_is_stopped (ctrls wells ! w)
        then init_stopped_well wells state w (ctrls wells ! w) ws = Inr ws'
        else init_open_well wells state w (type wells ! w) (ctrls wells ! w) ws = Inr ws')"
  using assms
  by (auto simp: init_well_def bindE_Inr_iff read_at_Inr_iff split: if_splits)

lemma stopped_rates:
  assumes "init_stopped_well wells state w ctrl ws = Inr ws'"
  shows "assign_rates (number_of_phases wells) w (\<lambda>p. Inr 0) [0..<number_of_phases wells]
           (wellRates ws) = Inr (wellRates ws')"
  using assms
  by (auto simp: init_stopped_well_def Let_def bindE_Inr_iff split: if_splits)

lemma stopped_BHP:
  assumes "init_stopped_well wells state w ctrl ws = Inr ws'"
    and "well_controls_get_current_type ctrl = Inr BHP"
  shows "\<exists>t. well_controls_get_current_target ctrl = Inr t
           \<and> bhp ws' = (bhp ws)[w := t] \<and> thp ws' = thp ws"
  using assms
  by (auto simp: init_stopped_well_def Let_def bindE_Inr_iff)

lemma stopped_default:
  assumes "init_stopped_well wells state w ctrl ws = Inr ws'"
    and "well_controls_get_current_type ctrl = Inr k" and "k \<noteq> BHP" and "k \<noteq> THP"
  shows "\<exists>c. first_cell wells w = Inr c \<and> c < length (pressure state)
           \<and> bhp ws' = (bhp ws)[w := pressure state ! c] \<and> thp ws' = (thp ws)[w := unset]"
  using assms
  by (auto simp: init_stopped_well_def Let_def bindE_Inr_iff read_at_Inr_iff)

lemma open_rates_surface:
  assumes "init_open_well wells state w ty ctrl ws = Inr ws'"
    and "well_controls_get_current_type ctrl = Inr SURFACE_RATE"
  shows "\<exists>t d. well_controls_get_current_target ctrl = Inr t
           \<and> well_controls_get_current_distr ctrl = Inr d
           \<and> assign_rates (number_of_phases wells) w
                (\<lambda>p. bindE (read_at d p) (\<lambda>dp. Inr (t * dp)))
                [0..<number_of_phases wells] (wellRates ws) = Inr (wellRates ws')"
  using assms
  by (auto simp: init_open_well_def Let_def bindE_Inr_iff)

lemma open_rates_other:
  assumes "init_open_well wells state w ty ctrl ws = Inr ws'"
    and "well_controls_get_current_type ctrl = Inr k" and "k \<noteq> SURFACE_RATE"
  shows "assign_rates (number_of_phases wells) w
           (\<lambda>p. Inr (1 / 10 ^ 14 * (if ty = INJECTOR then 1 else - 1)))
           [0..<number_of_phases wells] (wellRates ws) = Inr (wellRates ws')"
proof -
  from assms obtain rates bt where
    r: "assign_rates (number_of_phases wells) w
           (\<lambda>p. Inr (1 / 10 ^ 14 * (if ty = INJECTOR then 1 else - 1)))
           [0..<number_of_phases wells] (wellRates ws) = Inr rates"
    and rest: "(let ws1 = ws\<lparr>wellRates := rates, thp := (thp ws)[w := snd bt], bhp := (bhp ws)[w := fst bt]\<rparr>
       in if k = BHP then Inr ws1
          else if k = THP then Inr ws1
          else
            bindE (first_cell wells w) (\<lambda>c.
            bindE (read_at (pressure state) c) (\<lambda>pr.
              (let safety_factor = (if ty = INJECTOR then 1.01 else 0.99)
               in Inr (ws1\<lparr>bhp := (bhp ws1)[w := safety_factor * pr]\<rparr>))))) = Inr ws'"
    unfolding init_open_well_def Let_def bindE_Inr_iff by auto
  from rest have "wellRates ws' = rates"
    by (cases "k = BHP"; cases "k = THP") (auto simp: bindE_Inr_iff Let_def)
  with r show ?thesis by simp
qed

lemma open_pressures_scan:
  assumes "init_open_well wells state w ty ctrl ws = Inr ws'"
    and "well_controls_get_current_type ctrl = Inr k" and "k = BHP \<or> k = THP"
  shows "\<exists>bt. scan_controls ctrl [0..<well_controls_get_num ctrl] (unset, unset) = Inr bt
           \<and> bhp ws' = (bhp ws)[w := fst bt] \<and> thp ws' = (thp ws)[w := snd bt]"
  using assms
  by (auto simp: init_open_well_def Let_def bindE_Inr_iff)

lemma open_bhp_default:
  assumes "init_open_well wells state w ty ctrl ws = Inr ws'"
    and "well_controls_get_current_type ctrl = Inr k" and "k \<noteq> BHP" and "k \<noteq> THP"
  shows "\<exists>c. first_cell wells w = Inr c \<and> c < length (pressure state)
           \<and> bhp ws' = (bhp ws)[w := (if ty = INJECTOR then 1.01 else 0.99) * pressure state ! c]"
proof -
  from assms(1,2) obtain rates bt where
    rest: "(let ws1 = ws\<lparr>wellRates := rates, thp := (thp ws)[w := snd bt], bhp := (bhp ws)[w := fst bt]\<rparr>
       in if k = BHP then Inr ws1
          else if k = THP then Inr ws1
          else
            bindE (first_cell wells w) (\<lambda>c.
            bindE (read_at (pressure state) c) (\<lambda>pr.
              (let safety_factor = (if ty = INJECTOR then 1.01 else 0.99)
               in Inr (ws1\<lparr>bhp := (bhp ws1)[w := safety_factor * pr]\<rparr>))))) = Inr ws'"
    unfolding init_open_well_def Let_def bindE_Inr_iff by auto
  with assms(3,4) show ?thesis
    by (cases "ty = INJECTOR") (auto simp: bindE_Inr_iff Let_def read_at_Inr_iff)
qed

lemma init_at_well:
  assumes "init ws (Some wells) state = Inr st" and "w < number_of_wells wells"
  obtains ws_a ws_b where
    "init_well wells state w ws_a = Inr ws_b"
    "length (bhp ws_a) = number_of_wells wells"
    "length (thp ws_a) = number_of_wells wells"
    "length (wellRates ws_a) = number_of_wells wells * number_of_phases wells"
    "bhp ws_a ! w = resize (number_of_wells wells) 0 (bhp ws) ! w"
    "thp ws_a ! w = resize (number_of_wells wells) 0 (thp ws) ! w"
    "bhp st ! w = bhp ws_b ! w" "thp st ! w = thp ws_b ! w"
    "\<forall>p < number_of_phases wells.
        wellRates st ! (number_of_phases wells * w + p)
          = wellRates ws_b ! (number_of_phases wells * w + p)"
proof -
  let ?nw = "number_of_wells wells" and ?np = "number_of_phases wells"
  define ws0 where "ws0 = ws\<lparr>bhp := resize ?nw 0 (bhp ws),
                        thp := resize ?nw 0 (thp ws),
                        temperature := resize ?nw (273.15 + 20) (temperature ws),
                        wellRates := resize (?nw * ?np) 0 (wellRates ws)\<rparr>"
  from assms(1) obtain ws1 n where
    loop: "init_wells wells state [0..<?nw] ws0 = Inr ws1"
    and st: "st = ws1\<lparr>perfRates := resize n 0 (perfRates ws1),
                         perfPress := resize n unset (perfPress ws1)\<rparr>"
    unfolding init_def ws0_def Let_def by (auto simp: bindE_Inr_iff)
  from assms(2) have "[0..<?nw] = [0..<w] @ [w..<?nw]"
    using upt_add_eq_append [of 0 w "?nw - w"] by simp
  moreover from assms(2) have "[w..<?nw] = w # [Suc w..<?nw]"
    by (rule upt_conv_Cons)
  ultimately have split: "[0..<?nw] = [0..<w] @ [w] @ [Suc w..<?nw]"
    by simp
  from loop obtain ws_a ws_b where
    a: "init_wells wells state [0..<w] ws0 = Inr ws_a"
    and b: "init_well wells state w ws_a = Inr ws_b"
    and c: "init_wells wells state [Suc w..<?nw] ws_b = Inr ws1"
    unfolding split init_wells_append by (auto simp: bindE_Inr_iff)
  have fa: "length (bhp ws_a) = ?nw" "length (thp ws_a) = ?nw"
    "length (wellRates ws_a) = ?nw * ?np"
    "bhp ws_a ! w = resize ?nw 0 (bhp ws) ! w" "thp ws_a ! w = resize ?nw 0 (thp ws) ! w"
    using init_wells_frame [OF a, of w] by (simp_all add: ws0_def)
  have fc: "bhp ws1 ! w = bhp ws_b ! w" "thp ws1 ! w = thp ws_b ! w"
    "\<forall>p < ?np. wellRates ws1 ! (?np * w + p) = wellRates ws_b ! (?np * w + p)"
    using init_wells_frame [OF c, of w] by simp_all
  from st have "bhp st = bhp ws1" "thp st = thp ws1" "wellRates st = wellRates ws1"
    by simp_all
  with fc have "bhp st ! w = bhp ws_b ! w" "thp st ! w = thp ws_b ! w"
    "\<forall>p < ?np. wellRates st ! (?np * w + p) = wellRates ws_b ! (?np * w + p)"
    by simp_all
  with that b fa show thesis by blast
qed

lemma phase_index_bound:
  fixes np :: nat
  assumes "w < nw" and "p < np"
  shows "np * w + p < nw * np"
proof -
  from assms have "np * w + p < np * Suc w" by simp
  also from assms have "np * Suc w \<le> np * nw" by (intro mult_le_mono2) simp
  finally show ?thesis by (simp add: mult.commute)
qed

lemma current_type_Inr_iff:
  "well_controls_get_current_type ctrl = Inr k
     \<longleftrightarrow> current ctrl < length (controls ctrl) \<and> k = kind (controls ctrl ! current ctrl)"
  by (simp add: well_controls_get_current_type_def iget_type_Inr_iff)

lemma current_target_Inr_iff:
  "well_controls_get_current_target ctrl = Inr t
     \<longleftrightarrow> current ctrl < length (controls ctrl) \<and> t = target (controls ctrl ! current ctrl)"
  by (simp add: well_controls_get_current_target_def iget_target_Inr_iff)

lemma scan_unique_bhp:
  assumes "well_controls_get_current_type ctrl = Inr BHP" and "at_most_one_BHP ctrl"
    and "scan_controls ctrl [0..<well_controls_get_num ctrl] bt = Inr bt'"
  shows "well_controls_get_current_target ctrl = Inr (fst bt')"
proof -
  let ?cs = "controls ctrl" and ?cur = "current ctrl"
  from assms(1) have cur: "?cur < length ?cs" and k: "kind (?cs ! ?cur) = BHP"
    by (simp_all add: current_type_Inr_iff)
  have uniq: "\<forall>i \<in> set [0..<length ?cs]. kind (?cs ! i) = BHP \<longrightarrow> i = ?cur"
  proof (intro ballI impI)
    fix i assume "i \<in> set [0..<length ?cs]" and "kind (?cs ! i) = BHP"
    with assms(2) cur k show "i = ?cur"
      unfolding at_most_one_BHP_def
      by (intro filter_at_most_one [of "\<lambda>c. kind c = BHP" ?cs]) simp_all
  qed
  have "fst bt' = target (?cs ! ?cur)"
  proof (rule scan_controls_bhp [of "[0..<length ?cs]" ctrl ?cur bt bt'])
    show "\<forall>i \<in> set [0..<length ?cs]. i < length ?cs" by simp
    show "\<forall>i \<in> set [0..<length ?cs]. kind (?cs ! i) = BHP \<longrightarrow> i = ?cur" by (rule uniq)
    show "kind (?cs ! ?cur) = BHP" by (rule k)
    from cur show "?cur \<in> set [0..<length ?cs] \<or> fst bt = target (?cs ! ?cur)" by simp
    from assms(3) show "scan_controls ctrl [0..<length ?cs] bt = Inr bt'"
      by (simp add: well_controls_get_num_def)
  qed
  with cur show ?thesis by (simp add: current_target_Inr_iff)
qed

section \<open>Success on well-formed input\<close>

lemma assign_rates_const_total:
  "\<exists>rates'. assign_rates np w (\<lambda>p. Inr v) ps rates = Inr rates'"
  by (induction ps arbitrary: rates) simp_all

lemma first_cell_ok:
  assumes "tables_ok wells" and "w < number_of_wells wells" and "connections_ok wells state w"
  shows "first_cell wells w = Inr (well_cells wells ! (well_connpos wells ! w))"
  using assms
  by (simp add: first_cell_def read_at_def tables_ok_def connections_ok_def)

lemma init_stopped_well_total:
  assumes "tables_ok wells" and "w < number_of_wells wells"
    and "connections_ok wells state w" and "controls_ok wells w"
  shows "\<exists>ws'. init_stopped_well wells state w (ctrls wells ! w) ws = Inr ws'"
proof -
  let ?ctrl = "ctrls wells ! w" and ?np = "number_of_phases wells"
  obtain rates where
    r: "assign_rates ?np w (\<lambda>p. Inr 0) [0..<?np] (wellRates ws) = Inr rates"
    using assign_rates_const_total by blast
  from assms(4) have cur: "current ?ctrl < length (controls ?ctrl)"
    by (simp add: controls_ok_def)
  then have k: "well_controls_get_current_type ?ctrl = Inr (kind (controls ?ctrl ! current ?ctrl))"
    and t: "well_controls_get_current_target ?ctrl = Inr (target (controls ?ctrl ! current ?ctrl))"
    by (simp_all add: current_type_Inr_iff current_target_Inr_iff)
  from assms(3) have pr: "read_at (pressure state) (well_cells wells ! (well_connpos wells ! w))
      = Inr (pressure state ! (well_cells wells ! (well_connpos wells ! w)))"
    by (simp add: read_at_def connections_ok_def)
  show ?thesis
    by (simp add: init_stopped_well_def Let_def r k t first_cell_ok [OF assms(1-3)] pr)
qed

lemma init_open_well_total:
  assumes "tables_ok wells" and "w < number_of_wells wells"
    and "connections_ok wells state w" and "controls_ok wells w"
  shows "\<exists>ws'. init_open_well wells state w ty (ctrls wells ! w) ws = Inr ws'"
proof -
  let ?ctrl = "ctrls wells ! w" and ?np = "number_of_phases wells"
  let ?c = "controls ?ctrl ! current ?ctrl"
  from assms(4) have cur: "current ?ctrl < length (controls ?ctrl)"
    and len: "length (distr ?c) = ?np"
    by (simp_all add: controls_ok_def list_all_length)
  from cur have k: "well_controls_get_current_type ?ctrl = Inr (kind ?c)"
    and t: "well_controls_get_current_target ?ctrl = Inr (target ?c)"
    and d: "well_controls_get_current_distr ?ctrl = Inr (distr ?c)"
    by (simp_all add: current_type_Inr_iff current_target_Inr_iff
        well_controls_get_current_distr_def read_at_def)
  obtain r1 where r1: "assign_rates ?np w
        (\<lambda>p. bindE (read_at (distr ?c) p) (\<lambda>dp. Inr (target ?c * dp))) [0..<?np] (wellRates ws)
      = Inr r1"
    using assign_rates_total [of "[0..<?np]"
        "\<lambda>p. bindE (read_at (distr ?c) p) (\<lambda>dp. Inr (target ?c * dp))" ?np w "wellRates ws"] len
    by (auto simp: read_at_def)
  obtain r2 where r2: "assign_rates ?np w
        (\<lambda>p. Inr (1 / 10 ^ 14 * (if ty = INJECTOR then 1 else - 1))) [0..<?np] (wellRates ws)
      = Inr r2"
    using assign_rates_const_total by blast
  obtain bt where bt: "scan_controls ?ctrl [0..<well_controls_get_num ?ctrl] (unset, unset) = Inr bt"
    using scan_controls_total [of "[0..<well_controls_get_num ?ctrl]" ?ctrl "(unset, unset)"]
    by (auto simp: well_controls_get_num_def)
  from assms(3) have pr: "read_at (pressure state) (well_cells wells ! (well_connpos wells ! w))
      = Inr (pressure state ! (well_cells wells ! (well_connpos wells ! w)))"
    by (simp add: read_at_def connections_ok_def)
  show ?thesis
  proof (cases "kind ?c = SURFACE_RATE")
    case True
    then show ?thesis
      by (simp add: init_open_well_def Let_def k t d r1 bt first_cell_ok [OF assms(1-3)] pr)
  next
    case False
    with r2 show ?thesis
      by (simp add: init_open_well_def Let_def k bt first_cell_ok [OF assms(1-3)] pr)
  qed
qed

lemma init_well_total:
  assumes "tables_ok wells" and "w < number_of_wells wells"
    and "connections_ok wells state w" and "controls_ok wells w" and "type_ok wells w"
  shows "\<exists>ws'. init_well wells state w ws = Inr ws'"
proof -
  from assms(1,2) have rd: "read_at (type wells) w = Inr (type wells ! w)"
    "read_at (ctrls wells) w = Inr (ctrls wells ! w)"
    by (simp_all add: read_at_def tables_ok_def)
  from assms(5) have ty: "type wells ! w = INJECTOR \<or> type wells ! w = PRODUCER"
    by (simp add: type_ok_def)
  show ?thesis
  proof (cases "well_controls_well_is_stopped (ctrls wells ! w)")
    case True
    with init_stopped_well_total [OF assms(1-4)] rd ty show ?thesis
      by (simp add: init_well_def)
  next
    case False
    with init_open_well_total [OF assms(1-4)] rd ty show ?thesis
      by (simp add: init_well_def)
  qed
qed

lemma init_well_assertion:
  assumes "tables_ok wells" and "w < number_of_wells wells" and "\<not> type_ok wells w"
  shows "init_well wells state w ws = Inl AssertionFailed"
  using assms by (simp add: init_well_def read_at_def tables_ok_def type_ok_def)

lemma init_wells_total:
  assumes "tables_ok wells"
    and "\<forall>w \<in> set xs. w < number_of_wells wells \<and> connections_ok wells state w
           \<and> controls_ok wells w \<and> type_ok wells w"
  shows "\<exists>ws'. init_wells wells state xs ws = Inr ws'"
  using assms(2)
proof (induction xs arbitrary: ws)
  case Nil
  then show ?case by simp
next
  case (Cons w xs)
  then obtain ws1 where "init_well wells state w ws = Inr ws1"
    using init_well_total [OF assms(1), of w state ws] by auto
  with Cons show ?case by simp
qed

lemma init_wells_assertion:
  assumes "tables_ok wells"
    and "\<forall>w \<in> set xs. w < number_of_wells wells \<and> connections_ok wells state w
           \<and> controls_ok wells w"
    and "\<exists>w \<in> set xs. \<not> type_ok wells w"
  shows "init_wells wells state xs ws = Inl AssertionFailed"
  using assms(2,3)
proof (induction xs arbitrary: ws)
  case Nil
  then show ?case by simp
next
  case (Cons w xs)
  show ?case
  proof (cases "type_ok wells w")
    case False
    with Cons.prems(1) init_well_assertion [OF assms(1), of w state ws] show ?thesis by simp
  next
    case True
    with Cons.prems obtain ws1 where "init_well wells state w ws = Inr ws1"
      using init_well_total [OF assms(1), of w state ws] by auto
    moreover from True Cons.prems have "\<exists>v \<in> set xs. \<not> type_ok wells v" by auto
    ultimately show ?thesis using Cons.IH [of ws1] Cons.prems(1) by simp
  qed
qed

lemma init_total:
  assumes "structure_ok wells state" and "types_ok wells"
  shows "\<exists>st. init ws (Some wells) state = Inr st"
proof -
  let ?nw = "number_of_wells wells"
  from assms have tab: "tables_ok wells"
    and each: "\<forall>w \<in> set [0..<?nw]. w < ?nw \<and> connections_ok wells state w
        \<and> controls_ok wells w \<and> type_ok wells w"
    by (simp_all add: structure_ok_def types_ok_def list_all_iff)
  from tab have last: "read_at (well_connpos wells) ?nw = Inr (well_connpos wells ! ?nw)"
    by (simp add: read_at_def tables_ok_def)
  from init_wells_total [OF tab each] last show ?thesis
    by (auto simp: init_def Let_def bindE_Inr_iff)
qed

lemma init_assertion_fails:
  assumes "structure_ok wells state" and "\<not> types_ok wells"
  shows "init ws (Some wells) state = Inl AssertionFailed"
proof -
  let ?nw = "number_of_wells wells"
  from assms have tab: "tables_ok wells"
    and each: "\<forall>w \<in> set [0..<?nw]. w < ?nw \<and> connections_ok wells state w
        \<and> controls_ok wells w"
    by (simp_all add: structure_ok_def list_all_iff)
  from assms(2) have "\<exists>w \<in> set [0..<?nw]. \<not> type_ok wells w"
    by (simp add: types_ok_def list_all_iff)
  from init_wells_assertion [OF tab each this] show ?thesis
    by (simp add: init_def Let_def)
qed

lemma telescope:
  fixes f :: "nat \<Rightarrow> nat"
  assumes "\<forall>w < n. f w \<le> f (Suc w)"
  shows "sum_list (map (\<lambda>w. f (Suc w) - f w) [0..<n]) = f n - f 0 \<and> f 0 \<le> f n"
  using assms by (induction n) auto

lemma total_connections_last:
  assumes "well_formed wells state"
  shows "total_connections wells = well_connpos wells ! number_of_wells wells"
proof -
  from assms have "\<forall>w < number_of_wells wells.
      well_connpos wells ! w \<le> well_connpos wells ! Suc w"
    by (auto simp: well_formed_def structure_ok_def list_all_iff connections_ok_def
        intro: less_imp_le)
  from telescope [OF this]
  have "sum_list (map (\<lambda>w. well_connpos wells ! Suc w - well_connpos wells ! w)
          [0..<number_of_wells wells])
        = well_connpos wells ! number_of_wells wells - well_connpos wells ! 0"
    by simp
  moreover have "num_connections wells
      = (\<lambda>w. well_connpos wells ! Suc w - well_connpos wells ! w)"
    by (simp add: fun_eq_iff num_connections_def)
  moreover from assms have "well_connpos wells ! 0 = 0"
    by (simp add: well_formed_def structure_ok_def tables_ok_def)
  ultimately show ?thesis by (simp add: total_connections_def)
qed

section \<open>The columns of a structured grid\<close>

lemma cell_decompose:
  fixes c sx sy :: nat
  shows "c = c mod sx + (c div sx mod sy) * sx + (c div (sx * sy)) * sx * sy"
proof -
  have "c = c mod sx + sx * (c div sx)" by simp
  also have "c div sx = c div sx mod sy + sy * (c div sx div sy)" by simp
  also have "c div sx div sy = c div (sx * sy)" by (simp add: div_mult2_eq)
  finally show ?thesis by (simp add: algebra_simps)
qed

lemma structured_cell_coords:
  fixes i j k sx sy :: nat
  assumes "i < sx" and "j < sy"
  shows "(i + j * sx + k * sx * sy) mod sx = i"
    and "(i + j * sx + k * sx * sy) div sx mod sy = j"
    and "(i + j * sx + k * sx * sy) div (sx * sy) = k"
proof -
  have eq: "i + j * sx + k * sx * sy = i + sx * (j + sy * k)" by (simp add: algebra_simps)
  from assms show "(i + j * sx + k * sx * sy) mod sx = i" unfolding eq by simp
  from assms have d: "(i + j * sx + k * sx * sy) div sx = j + sy * k" unfolding eq by simp
  from assms show "(i + j * sx + k * sx * sy) div sx mod sy = j" unfolding d by simp
  from assms have "(i + j * sx + k * sx * sy) div sx div sy = k" unfolding d by simp
  then show "(i + j * sx + k * sx * sy) div (sx * sy) = k" by (simp add: div_mult2_eq)
qed

lemma structured_cell_bound:
  fixes i j k sx sy sz :: nat
  assumes "i < sx" and "j < sy" and "k < sz"
  shows "i + j * sx + k * sx * sy < sx * sy * sz"
proof -
  from assms have "i + j * sx < Suc j * sx" by simp
  also from assms have "Suc j * sx \<le> sy * sx" by (intro mult_le_mono1) simp
  finally have "i + j * sx + k * sx * sy < Suc k * (sx * sy)" by (simp add: algebra_simps)
  also from assms have "Suc k * (sx * sy) \<le> sz * (sx * sy)" by (intro mult_le_mono1) simp
  finally show ?thesis by (simp add: algebra_simps)
qed

lemma structured_column_sorted:
  assumes "i < sx" and "j < sy"
  shows "sorted_wrt (<) (structured_column sx sy sz i j)"
proof -
  from assms have pos: "0 < sx * sy" by simp
  have "sorted_wrt (\<lambda>k l. i + j * sx + k * sx * sy < i + j * sx + l * sx * sy) [0..<sz]"
  proof (rule sorted_wrt_mono_rel [OF _ sorted_wrt_upt])
    fix k l :: nat assume "k < l"
    with pos have "k * (sx * sy) < l * (sx * sy)" by simp
    then show "i + j * sx + k * sx * sy < i + j * sx + l * sx * sy"
      by (simp add: mult.assoc)
  qed
  then show ?thesis by (simp add: structured_column_def sorted_wrt_map)
qed

lemma filter_structured_cells:
  assumes "i < sx" and "j < sy"
  shows "filter (\<lambda>c. c mod sx = i \<and> c div sx mod sy = j) [0..<sx * sy * sz]
           = structured_column sx sy sz i j"
proof (rule sorted_distinct_set_unique)
  let ?f = "filter (\<lambda>c. c mod sx = i \<and> c div sx mod sy = j) [0..<sx * sy * sz]"
  have "sorted_wrt (<) ?f" by (rule sorted_wrt_filter) simp
  then show "sorted ?f" "distinct ?f" by (simp_all add: strict_sorted_iff)
  from structured_column_sorted [OF assms]
  show "sorted (structured_column sx sy sz i j)" "distinct (structured_column sx sy sz i j)"
    by (simp_all add: strict_sorted_iff)
  show "set ?f = set (structured_column sx sy sz i j)"
  proof (intro set_eqI iffI)
    fix c assume "c \<in> set ?f"
    then have c: "c < sx * sy * sz" "c mod sx = i" "c div sx mod sy = j" by simp_all
    from assms have pos: "0 < sx * sy" by simp
    from c(1) have "c div (sx * sy) < sz"
      by (simp add: less_mult_imp_div_less mult.commute)
    moreover from cell_decompose [of c sx sy] c
    have "c = i + j * sx + (c div (sx * sy)) * sx * sy" by simp
    ultimately show "c \<in> set (structured_column sx sy sz i j)"
      by (auto simp: structured_column_def intro!: image_eqI [where x = "c div (sx * sy)"])
  next
    fix c assume "c \<in> set (structured_column sx sy sz i j)"
    then obtain k where k: "k < sz" and c: "c = i + j * sx + k * sx * sy"
      by (auto simp: structured_column_def)
    from structured_cell_bound [OF assms k] structured_cell_coords(1,2) [OF assms] c
    show "c \<in> set ?f" by simp
  qed
qed

lemma GridManager_coords:
  assumes "c < sx * sy * sz"
  shows "cell_i (GridManager sx sy sz) c = c mod sx"
    and "cell_j (GridManager sx sy sz) c = c div sx mod sy"
    and "cell_k (GridManager sx sy sz) c = c div (sx * sy)"
  using assms by (simp_all add: GridManager_def cell_i_def cell_j_def cell_k_def)

lemma column_of_structured:
  assumes "i < sx" and "j < sy"
  shows "column_of (GridManager sx sy sz) (j, i) = structured_column sx sy sz i j"
proof -
  let ?g = "GridManager sx sy sz"
  have len: "length (cell_ijk ?g) = sx * sy * sz" by (simp add: GridManager_def)
  have "filter (\<lambda>c. cell_i ?g c = i \<and> cell_j ?g c = j) [0..<sx * sy * sz]
      = filter (\<lambda>c. c mod sx = i \<and> c div sx mod sy = j) [0..<sx * sy * sz]"
    by (rule filter_cong) (simp_all add: GridManager_coords)
  also have "\<dots> = structured_column sx sy sz i j" by (rule filter_structured_cells [OF assms])
  finally have f: "filter (\<lambda>c. cell_i ?g c = i \<and> cell_j ?g c = j) [0..<sx * sy * sz]
      = structured_column sx sy sz i j" .
  have "map (cell_k ?g) (structured_column sx sy sz i j) = [0..<sz]"
  proof -
    have "map (cell_k ?g) (structured_column sx sy sz i j)
        = map (\<lambda>k. cell_k ?g (i + j * sx + k * sx * sy)) [0..<sz]"
      by (simp add: structured_column_def comp_def)
    also have "\<dots> = map (\<lambda>k. k) [0..<sz]"
    proof (rule map_cong [OF refl])
      fix k assume "k \<in> set [0..<sz]"
      then have "k < sz" by simp
      from GridManager_coords(3) [OF structured_cell_bound [OF assms this]]
        structured_cell_coords(3) [OF assms]
      show "cell_k ?g (i + j * sx + k * sx * sy) = k" by simp
    qed
    finally show ?thesis by simp
  qed
  then have "sorted (map (cell_k ?g) (structured_column sx sy sz i j))" by simp
  then have "sort_key (cell_k ?g) (structured_column sx sy sz i j) = structured_column sx sy sz i j"
    by (rule sort_key_id_if_sorted)
  with f len show ?thesis by (simp add: column_of_def)
qed

lemma extractColumn_structured:
  assumes "0 < sz"
  shows "extractColumn (GridManager sx sy sz)
           = map (\<lambda>(j, i). structured_column sx sy sz i j) (List.product [0..<sy] [0..<sx])"
proof -
  let ?g = "GridManager sx sy sz" and ?keys = "List.product [0..<sy] [0..<sx]"
  have m: "map (column_of ?g) ?keys = map (\<lambda>(j, i). structured_column sx sy sz i j) ?keys"
    by (rule map_cong [OF refl]) (auto simp: column_of_structured)
  from assms have "\<forall>col \<in> set (map (\<lambda>(j, i). structured_column sx sy sz i j) ?keys). col \<noteq> []"
    by (auto simp: structured_column_def)
  then have "filter (\<lambda>col. col \<noteq> []) (map (\<lambda>(j, i). structured_column sx sy sz i j) ?keys)
      = map (\<lambda>(j, i). structured_column sx sy sz i j) ?keys"
    by (simp only: filter_True)
  moreover have "cartdims ?g = (sx, sy, sz)" by (simp add: GridManager_def)
  ultimately show ?thesis by (simp add: extractColumn_def m)
qed

section \<open>The concrete inputs, evaluated\<close>

lemma example_init:
  "init WellState_default (Some example_wells) example_state = Inr example_result"
  by code_simp

lemma example_well_formed: "well_formed example_wells example_state"
  by code_simp

lemma bad_type_structure: "structure_ok bad_type_wells example_state"
  by code_simp

lemma bad_type_types: "\<not> types_ok bad_type_wells"
  by code_simp

section \<open>Properties of the initialisation\<close>

text \<open>
  \<^bold>\<open>C1.\<close> For a well whose current control has kind BHP, \<open>bhp[w]\<close> after \<open>init\<close> is
  exactly the target of the current control, when the well is stopped and also when it
  is open and its control list holds at most one control of kind BHP. The theorem
  holds for every object \<open>ws\<close> the method is called on and every input on which it
  returns.
\<close>

theorem bhp_control_sets_bhp:
  assumes "init ws (Some wells) state = Inr st" and "w < number_of_wells wells"
    and "well_controls_get_current_type (ctrls wells ! w) = Inr BHP"
    and "well_controls_well_is_stopped (ctrls wells ! w) \<or> at_most_one_BHP (ctrls wells ! w)"
  shows "well_controls_get_current_target (ctrls wells ! w) = Inr (bhp st ! w)"
proof -
  let ?ctrl = "ctrls wells ! w"
  from init_at_well [OF assms(1,2)] obtain ws_a ws_b where
    b: "init_well wells state w ws_a = Inr ws_b"
    and len: "length (bhp ws_a) = number_of_wells wells"
    and fin: "bhp st ! w = bhp ws_b ! w"
    by blast
  note cases = init_well_Inr_cases [OF b]
  show ?thesis
  proof (cases "well_controls_well_is_stopped ?ctrl")
    case True
    with cases have "init_stopped_well wells state w ?ctrl ws_a = Inr ws_b" by simp
    from stopped_BHP [OF this assms(3)] obtain t where
      "well_controls_get_current_target ?ctrl = Inr t" "bhp ws_b = (bhp ws_a)[w := t]" by blast
    with len assms(2) fin show ?thesis by simp
  next
    case False
    with assms(4) have one: "at_most_one_BHP ?ctrl" by simp
    from False cases
    have "init_open_well wells state w (type wells ! w) ?ctrl ws_a = Inr ws_b" by simp
    from open_pressures_scan [OF this assms(3)] obtain bt where
      scan: "scan_controls ?ctrl [0..<well_controls_get_num ?ctrl] (unset, unset) = Inr bt"
      and upd: "bhp ws_b = (bhp ws_a)[w := fst bt]" by blast
    from scan_unique_bhp [OF assms(3) one scan] upd len assms(2) fin show ?thesis by simp
  qed
qed

theorem bhp_control_sets_bhp_witness:
  "init WellState_default (Some example_wells) example_state = Inr example_result
   \<and> well_controls_well_is_stopped (ctrls example_wells ! 1)
   \<and> well_controls_get_current_type (ctrls example_wells ! 1) = Inr BHP
   \<and> well_controls_get_current_target (ctrls example_wells ! 1) = Inr (bhp example_result ! 1)
   \<and> bhp example_result ! 1 = 5000
   \<and> \<not> well_controls_well_is_stopped (ctrls example_wells ! 2)
   \<and> at_most_one_BHP (ctrls example_wells ! 2)
   \<and> well_controls_get_current_type (ctrls example_wells ! 2) = Inr BHP
   \<and> well_controls_get_current_target (ctrls example_wells ! 2) = Inr (bhp example_result ! 2)
   \<and> bhp example_result ! 2 = 250"
proof -
  have n1: "(1::nat) < number_of_wells example_wells"
    and n2: "(2::nat) < number_of_wells example_wells" by code_simp+
  have s1: "well_controls_well_is_stopped (ctrls example_wells ! 1)" by code_simp
  have k1: "well_controls_get_current_type (ctrls example_wells ! 1) = Inr BHP" by code_simp
  have s2: "\<not> well_controls_well_is_stopped (ctrls example_wells ! 2)" by code_simp
  have o2: "at_most_one_BHP (ctrls example_wells ! 2)" by code_simp
  have k2: "well_controls_get_current_type (ctrls example_wells ! 2) = Inr BHP" by code_simp
  have v1: "bhp example_result ! 1 = 5000" and v2: "bhp example_result ! 2 = 250"
    by code_simp+
  from s1 have d1: "well_controls_well_is_stopped (ctrls example_wells ! 1)
      \<or> at_most_one_BHP (ctrls example_wells ! 1)" by simp
  from o2 have d2: "well_controls_well_is_stopped (ctrls example_wells ! 2)
      \<or> at_most_one_BHP (ctrls example_wells ! 2)" by simp
  note t1 = bhp_control_sets_bhp [OF example_init n1 k1 d1]
  note t2 = bhp_control_sets_bhp [OF example_init n2 k2 d2]
  from example_init s1 k1 t1 v1 s2 o2 k2 t2 v2 show ?thesis by blast
qed

text \<open>
  \<^bold>\<open>C2.\<close> For an open well whose current control is neither BHP nor THP, \<open>bhp[w]\<close>
  after \<open>init\<close> is 1.01 times the pressure of the cell of the well's first connection
  when the well is an injector, and 0.99 times that pressure when it is a producer.
\<close>

theorem open_well_bhp_near_first_cell_pressure:
  assumes "init ws (Some wells) state = Inr st" and "w < number_of_wells wells"
    and "\<not> well_controls_well_is_stopped (ctrls wells ! w)"
    and "well_controls_get_current_type (ctrls wells ! w) = Inr k"
    and "k \<noteq> BHP" and "k \<noteq> THP"
  shows "\<exists>c. first_cell wells w = Inr c \<and> c < length (pressure state)
           \<and> (type wells ! w = INJECTOR \<and> bhp st ! w = 1.01 * pressure state ! c
              \<or> type wells ! w = PRODUCER \<and> bhp st ! w = 0.99 * pressure state ! c)"
proof -
  let ?ctrl = "ctrls wells ! w"
  from init_at_well [OF assms(1,2)] obtain ws_a ws_b where
    b: "init_well wells state w ws_a = Inr ws_b"
    and len: "length (bhp ws_a) = number_of_wells wells"
    and fin: "bhp st ! w = bhp ws_b ! w"
    by blast
  note cases = init_well_Inr_cases [OF b]
  from cases assms(3)
  have "init_open_well wells state w (type wells ! w) ?ctrl ws_a = Inr ws_b" by simp
  from open_bhp_default [OF this assms(4-6)] obtain c where
    c: "first_cell wells w = Inr c" "c < length (pressure state)"
    and upd: "bhp ws_b = (bhp ws_a)
        [w := (if type wells ! w = INJECTOR then 1.01 else 0.99) * pressure state ! c]"
    by blast
  from upd len assms(2) fin
  have "bhp st ! w = (if type wells ! w = INJECTOR then 1.01 else 0.99) * pressure state ! c"
    by simp
  moreover from cases have "type wells ! w = INJECTOR \<or> type wells ! w = PRODUCER" by simp
  ultimately show ?thesis using c by (auto simp: INJECTOR_def PRODUCER_def)
qed

theorem open_well_bhp_near_first_cell_pressure_witness:
  "init WellState_default (Some example_wells) example_state = Inr example_result
   \<and> \<not> well_controls_well_is_stopped (ctrls example_wells ! 0)
   \<and> well_controls_get_current_type (ctrls example_wells ! 0) = Inr SURFACE_RATE
   \<and> (\<exists>c. first_cell example_wells 0 = Inr c \<and> c < length (pressure example_state)
         \<and> (type example_wells ! 0 = INJECTOR
               \<and> bhp example_result ! 0 = 1.01 * pressure example_state ! c
             \<or> type example_wells ! 0 = PRODUCER
               \<and> bhp example_result ! 0 = 0.99 * pressure example_state ! c))
   \<and> type example_wells ! 0 = INJECTOR \<and> bhp example_result ! 0 = 303
   \<and> \<not> well_controls_well_is_stopped (ctrls example_wells ! 4)
   \<and> well_controls_get_current_type (ctrls example_wells ! 4) = Inr OTHER_CONTROL
   \<and> (\<exists>c. first_cell example_wells 4 = Inr c \<and> c < length (pressure example_state)
         \<and> (type example_wells ! 4 = INJECTOR
               \<and> bhp example_result ! 4 = 1.01 * pressure example_state ! c
             \<or> type example_wells ! 4 = PRODUCER
               \<and> bhp example_result ! 4 = 0.99 * pressure example_state ! c))
   \<and> type example_wells ! 4 = PRODUCER \<and> bhp example_result ! 4 = 99"
proof -
  have n0: "(0::nat) < number_of_wells example_wells"
    and n4: "(4::nat) < number_of_wells example_wells" by code_simp+
  have s0: "\<not> well_controls_well_is_stopped (ctrls example_wells ! 0)" by code_simp
  have k0: "well_controls_get_current_type (ctrls example_wells ! 0) = Inr SURFACE_RATE"
    by code_simp
  have s4: "\<not> well_controls_well_is_stopped (ctrls example_wells ! 4)" by code_simp
  have k4: "well_controls_get_current_type (ctrls example_wells ! 4) = Inr OTHER_CONTROL"
    by code_simp
  have v: "type example_wells ! 0 = INJECTOR" "bhp example_result ! 0 = 303"
    "type example_wells ! 4 = PRODUCER" "bhp example_result ! 4 = 99"
    by code_simp+
  note t0 = open_well_bhp_near_first_cell_pressure [OF example_init n0 s0 k0]
  note t4 = open_well_bhp_near_first_cell_pressure [OF example_init n4 s4 k4]
  from t0 have c0: "\<exists>c. first_cell example_wells 0 = Inr c \<and> c < length (pressure example_state)
         \<and> (type example_wells ! 0 = INJECTOR
               \<and> bhp example_result ! 0 = 1.01 * pressure example_state ! c
             \<or> type example_wells ! 0 = PRODUCER
               \<and> bhp example_result ! 0 = 0.99 * pressure example_state ! c)"
    by simp
  from t4 have c4: "\<exists>c. first_cell example_wells 4 = Inr c \<and> c < length (pressure example_state)
         \<and> (type example_wells ! 4 = INJECTOR
               \<and> bhp example_result ! 4 = 1.01 * pressure example_state ! c
             \<or> type example_wells ! 4 = PRODUCER
               \<and> bhp example_result ! 4 = 0.99 * pressure example_state ! c)"
    by simp
  from example_init s0 k0 c0 v s4 k4 c4 show ?thesis by blast
qed

text \<open>
  \<^bold>\<open>C3.\<close> For a stopped well whose current control has kind BHP, \<open>thp[w]\<close> after
  \<open>init\<close> on a default-constructed object is still the 0.0 that \<^verbatim>\<open>thp_.resize(nw)\<close>
  stored: the BHP case of the switch does not assign it, and it is not the \<open>-1e100\<close>
  that the default case stores.
\<close>

theorem stopped_bhp_well_keeps_default_thp:
  assumes "init WellState_default (Some wells) state = Inr st" and "w < number_of_wells wells"
    and "well_controls_well_is_stopped (ctrls wells ! w)"
    and "well_controls_get_current_type (ctrls wells ! w) = Inr BHP"
  shows "thp st ! w = 0 \<and> thp st ! w \<noteq> unset \<and> thp st ! w \<noteq> - (10 ^ 100)"
proof -
  let ?ctrl = "ctrls wells ! w"
  from init_at_well [OF assms(1,2)] obtain ws_a ws_b where
    b: "init_well wells state w ws_a = Inr ws_b"
    and before: "thp ws_a ! w = resize (number_of_wells wells) 0 (thp WellState_default) ! w"
    and fin: "thp st ! w = thp ws_b ! w"
    by blast
  from init_well_Inr_cases [OF b] assms(3)
  have "init_stopped_well wells state w ?ctrl ws_a = Inr ws_b" by simp
  from stopped_BHP [OF this assms(4)] have "thp ws_b = thp ws_a" by blast
  with before fin assms(2) have "thp st ! w = 0"
    by (simp add: WellState_default_def resize_Nil)
  then show ?thesis by (simp add: unset_def)
qed

theorem stopped_bhp_well_keeps_default_thp_witness:
  "init WellState_default (Some example_wells) example_state = Inr example_result
   \<and> well_controls_well_is_stopped (ctrls example_wells ! 1)
   \<and> well_controls_get_current_type (ctrls example_wells ! 1) = Inr BHP
   \<and> thp example_result ! 1 = 0 \<and> thp example_result ! 1 \<noteq> unset
   \<and> thp example_result ! 1 \<noteq> - (10 ^ 100)"
proof -
  have n1: "(1::nat) < number_of_wells example_wells" by code_simp
  have s1: "well_controls_well_is_stopped (ctrls example_wells ! 1)" by code_simp
  have k1: "well_controls_get_current_type (ctrls example_wells ! 1) = Inr BHP" by code_simp
  note t1 = stopped_bhp_well_keeps_default_thp [OF example_init n1 s1 k1]
  from example_init s1 k1 t1 show ?thesis by blast
qed

text \<open>
  \<^bold>\<open>C4.\<close> For an open well whose current control has kind SurfaceRate, the rate of
  every phase \<open>p\<close> after \<open>init\<close> is the target of the control times entry \<open>p\<close> of its
  distribution vector. That the vector sums to 1 is not needed; the instance below is
  the scenario of the specification (target 100, distribution 0.3 and 0.7, rates 30
  and 70).
\<close>

theorem open_surface_rate_well_rates:
  assumes "init ws (Some wells) state = Inr st" and "w < number_of_wells wells"
    and "\<not> well_controls_well_is_stopped (ctrls wells ! w)"
    and "well_controls_get_current_type (ctrls wells ! w) = Inr SURFACE_RATE"
    and "p < number_of_phases wells"
  shows "\<exists>t d. well_controls_get_current_target (ctrls wells ! w) = Inr t
           \<and> well_controls_get_current_distr (ctrls wells ! w) = Inr d \<and> p < length d
           \<and> wellRates st ! (number_of_phases wells * w + p) = t * d ! p"
proof -
  let ?ctrl = "ctrls wells ! w" and ?np = "number_of_phases wells"
  from init_at_well [OF assms(1,2)] obtain ws_a ws_b where
    b: "init_well wells state w ws_a = Inr ws_b"
    and len: "length (wellRates ws_a) = number_of_wells wells * ?np"
    and fin: "\<forall>p < ?np. wellRates st ! (?np * w + p) = wellRates ws_b ! (?np * w + p)"
    by blast
  from init_well_Inr_cases [OF b] assms(3)
  have "init_open_well wells state w (type wells ! w) ?ctrl ws_a = Inr ws_b" by simp
  from open_rates_surface [OF this assms(4)] obtain t d where
    t: "well_controls_get_current_target ?ctrl = Inr t"
    and d: "well_controls_get_current_distr ?ctrl = Inr d"
    and r: "assign_rates ?np w (\<lambda>p. bindE (read_at d p) (\<lambda>dp. Inr (t * dp)))
              [0..<?np] (wellRates ws_a) = Inr (wellRates ws_b)"
    by blast
  from assms(2,5) len have "?np * w + p < length (wellRates ws_a)"
    by (simp add: phase_index_bound)
  from assign_rates_value [OF r _ this] assms(5)
  have "bindE (read_at d p) (\<lambda>dp. Inr (t * dp)) = Inr (wellRates ws_b ! (?np * w + p))"
    by simp
  then have "p < length d" "wellRates ws_b ! (?np * w + p) = t * d ! p"
    by (auto simp: bindE_Inr_iff read_at_Inr_iff)
  with fin assms(5) t d show ?thesis by simp
qed

theorem open_surface_rate_well_rates_witness:
  "init WellState_default (Some example_wells) example_state = Inr example_result
   \<and> \<not> well_controls_well_is_stopped (ctrls example_wells ! 0)
   \<and> well_controls_get_current_type (ctrls example_wells ! 0) = Inr SURFACE_RATE
   \<and> well_controls_get_current_target (ctrls example_wells ! 0) = Inr 100
   \<and> well_controls_get_current_distr (ctrls example_wells ! 0) = Inr [0.3, 0.7]
   \<and> sum_list [0.3, 0.7 :: real] = 1
   \<and> wellRates example_result ! (number_of_phases example_wells * 0 + 0) = 100 * 0.3
   \<and> wellRates example_result ! (number_of_phases example_wells * 0 + 1) = 100 * 0.7
   \<and> wellRates example_result ! 0 = 30 \<and> wellRates example_result ! 1 = 70"
proof -
  have n0: "(0::nat) < number_of_wells example_wells" by code_simp
  have p0: "(0::nat) < number_of_phases example_wells"
    and p1: "(1::nat) < number_of_phases example_wells" by code_simp+
  have s0: "\<not> well_controls_well_is_stopped (ctrls example_wells ! 0)" by code_simp
  have k0: "well_controls_get_current_type (ctrls example_wells ! 0) = Inr SURFACE_RATE"
    by code_simp
  have t: "well_controls_get_current_target (ctrls example_wells ! 0) = Inr 100" by code_simp
  have d: "well_controls_get_current_distr (ctrls example_wells ! 0) = Inr [0.3, 0.7]"
    by code_simp
  have s: "sum_list [0.3, 0.7 :: real] = 1" by simp
  have v: "wellRates example_result ! 0 = 30" "wellRates example_result ! 1 = 70"
    by code_simp+
  from open_surface_rate_well_rates [OF example_init n0 s0 k0 p0] t d
  have r0: "wellRates example_result ! (number_of_phases example_wells * 0 + 0) = 100 * 0.3"
    by simp
  from open_surface_rate_well_rates [OF example_init n0 s0 k0 p1] t d
  have r1: "wellRates example_result ! (number_of_phases example_wells * 0 + 1) = 100 * 0.7"
    by simp
  from example_init s0 k0 t d s r0 r1 v show ?thesis by blast
qed

text \<open>
  \<^bold>\<open>C6.\<close> As stated the claim fails: \<open>init\<close> has one assertion, on the well type, and
  none on the connections. On the two-well input below the first well has no
  connection and its current control is neither BHP nor THP, so the first-connection
  lookup is reached; it reads the first cell of the second well and \<open>init\<close> returns.
\<close>

theorem zero_connection_well_not_rejected:
  "num_connections no_connection_wells 0 = 0
   \<and> type_ok no_connection_wells 0
   \<and> well_controls_get_current_type (ctrls no_connection_wells ! 0) = Inr OTHER_CONTROL
   \<and> first_cell no_connection_wells 0 = Inr 3
   \<and> init WellState_default (Some no_connection_wells) no_connection_state
       = Inr no_connection_result"
  by code_simp

text \<open>
  \<^bold>\<open>C6, amended.\<close> On input whose tables, connections and controls are in order
  (\<open>structure_ok\<close>: in particular every well has at least one connection), \<open>init\<close>
  fails with the assertion when some well has a type that is neither
  \<^verbatim>\<open>INJECTOR\<close> nor \<^verbatim>\<open>PRODUCER\<close>, and otherwise returns a state: well-formed
  input has no error path. The assertion is modelled as enabled (no \<^verbatim>\<open>NDEBUG\<close>).
\<close>

theorem init_error_paths:
  assumes "structure_ok wells state"
  shows "if types_ok wells
         then \<exists>st. init ws (Some wells) state = Inr st
         else init ws (Some wells) state = Inl AssertionFailed"
  using init_total [OF assms] init_assertion_fails [OF assms] by simp

theorem init_error_paths_witness:
  "structure_ok example_wells example_state \<and> types_ok example_wells
   \<and> (\<exists>st. init WellState_default (Some example_wells) example_state = Inr st)
   \<and> structure_ok bad_type_wells example_state \<and> \<not> types_ok bad_type_wells
   \<and> init WellState_default (Some bad_type_wells) example_state = Inl AssertionFailed"
proof -
  from example_well_formed have ok: "structure_ok example_wells example_state"
    and ty: "types_ok example_wells" by (simp_all add: well_formed_def)
  from init_error_paths [OF ok, of WellState_default] ty
  have a: "\<exists>st. init WellState_default (Some example_wells) example_state = Inr st" by simp
  from init_error_paths [OF bad_type_structure, of WellState_default] bad_type_types
  have b: "init WellState_default (Some bad_type_wells) example_state = Inl AssertionFailed"
    by simp
  from ok ty a bad_type_structure bad_type_types b show ?thesis by blast
qed

text \<open>
  \<^bold>\<open>C7.\<close> On well-formed input \<open>init\<close>, called on a default-constructed object,
  returns a state in which \<open>wellRates\<close> has one entry per well and phase, \<open>bhp\<close>,
  \<open>thp\<close> and \<open>temperature\<close> one entry per well, and \<open>perfRates\<close> and \<open>perfPress\<close>
  one entry per well connection (the sum of the connection counts of the wells), all
  0 and all \<open>-1e100\<close>, written out as \<open>- (10 ^ 100)\<close>, whatever the controls are.
\<close>

theorem init_state_sizes:
  assumes "well_formed wells state"
  shows "\<exists>st. init WellState_default (Some wells) state = Inr st
    \<and> length (wellRates st) = number_of_wells wells * number_of_phases wells
    \<and> length (bhp st) = number_of_wells wells
    \<and> length (thp st) = number_of_wells wells
    \<and> length (temperature st) = number_of_wells wells
    \<and> length (perfRates st) = total_connections wells
    \<and> length (perfPress st) = total_connections wells
    \<and> perfRates st = replicate (total_connections wells) 0
    \<and> perfPress st = replicate (total_connections wells) (- (10 ^ 100))"
proof -
  let ?nw = "number_of_wells wells" and ?np = "number_of_phases wells"
  from assms have "structure_ok wells state" "types_ok wells" by (simp_all add: well_formed_def)
  from init_total [OF this] obtain st where
    st: "init WellState_default (Some wells) state = Inr st" by blast
  define ws0 where "ws0 = WellState_default\<lparr>bhp := resize ?nw 0 (bhp WellState_default),
                        thp := resize ?nw 0 (thp WellState_default),
                        temperature := resize ?nw (273.15 + 20) (temperature WellState_default),
                        wellRates := resize (?nw * ?np) 0 (wellRates WellState_default)\<rparr>"
  from st obtain ws1 n where
    loop: "init_wells wells state [0..<?nw] ws0 = Inr ws1"
    and n: "read_at (well_connpos wells) ?nw = Inr n"
    and eq: "st = ws1\<lparr>perfRates := resize n 0 (perfRates ws1),
                         perfPress := resize n unset (perfPress ws1)\<rparr>"
    unfolding init_def ws0_def Let_def by (auto simp: bindE_Inr_iff)
  from n total_connections_last [OF assms] have n': "n = total_connections wells"
    by (simp add: read_at_Inr_iff)
  from init_wells_frame [OF loop, of ?nw]
  have "length (bhp ws1) = ?nw" "length (thp ws1) = ?nw" "length (wellRates ws1) = ?nw * ?np"
    "length (temperature ws1) = ?nw" "perfRates ws1 = []" "perfPress ws1 = []"
    by (simp_all add: ws0_def WellState_default_def)
  with eq n' have "length (wellRates st) = ?nw * ?np" "length (bhp st) = ?nw"
    "length (thp st) = ?nw" "length (temperature st) = ?nw"
    "perfRates st = replicate (total_connections wells) 0"
    "perfPress st = replicate (total_connections wells) (- (10 ^ 100))"
    by (simp_all add: resize_Nil unset_def)
  moreover from this have "length (perfRates st) = total_connections wells"
    "length (perfPress st) = total_connections wells"
    by simp_all
  ultimately show ?thesis using st by blast
qed

theorem init_state_sizes_witness:
  "well_formed example_wells example_state
   \<and> number_of_wells example_wells = 5 \<and> number_of_phases example_wells = 2
   \<and> total_connections example_wells = 7
   \<and> (\<exists>st. init WellState_default (Some example_wells) example_state = Inr st
         \<and> length (wellRates st) = 5 * 2
         \<and> length (bhp st) = 5 \<and> length (thp st) = 5 \<and> length (temperature st) = 5
         \<and> length (perfRates st) = 7 \<and> length (perfPress st) = 7
         \<and> perfRates st = replicate 7 0
         \<and> perfPress st = replicate 7 (- (10 ^ 100)))"
proof -
  have n: "number_of_wells example_wells = 5" "number_of_phases example_wells = 2"
    "total_connections example_wells = 7" by code_simp+
  from init_state_sizes [OF example_well_formed] n
  have "\<exists>st. init WellState_default (Some example_wells) example_state = Inr st
         \<and> length (wellRates st) = 5 * 2
         \<and> length (bhp st) = 5 \<and> length (thp st) = 5 \<and> length (temperature st) = 5
         \<and> length (perfRates st) = 7 \<and> length (perfPress st) = 7
         \<and> perfRates st = replicate 7 0
         \<and> perfPress st = replicate 7 (- (10 ^ 100))"
    by simp
  with example_well_formed n show ?thesis by blast
qed

text \<open>
  \<^bold>\<open>C8.\<close> For a stopped well whose current control is neither BHP nor THP, after
  \<open>init\<close> \<open>bhp[w]\<close> is the pressure of the cell of the well's first connection,
  \<open>thp[w]\<close> is \<open>-1e100\<close>, and the rate of every phase of the well is 0.
\<close>

theorem stopped_well_without_pressure_control:
  assumes "init ws (Some wells) state = Inr st" and "w < number_of_wells wells"
    and "well_controls_well_is_stopped (ctrls wells ! w)"
    and "well_controls_get_current_type (ctrls wells ! w) = Inr k"
    and "k \<noteq> BHP" and "k \<noteq> THP"
  shows "\<exists>c. first_cell wells w = Inr c \<and> c < length (pressure state)
           \<and> bhp st ! w = pressure state ! c \<and> thp st ! w = - (10 ^ 100)
           \<and> (\<forall>p < number_of_phases wells.
                 wellRates st ! (number_of_phases wells * w + p) = 0)"
proof -
  let ?ctrl = "ctrls wells ! w" and ?np = "number_of_phases wells"
  from init_at_well [OF assms(1,2)] obtain ws_a ws_b where
    b: "init_well wells state w ws_a = Inr ws_b"
    and len: "length (bhp ws_a) = number_of_wells wells"
      "length (thp ws_a) = number_of_wells wells"
      "length (wellRates ws_a) = number_of_wells wells * ?np"
    and fin: "bhp st ! w = bhp ws_b ! w" "thp st ! w = thp ws_b ! w"
      "\<forall>p < ?np. wellRates st ! (?np * w + p) = wellRates ws_b ! (?np * w + p)"
    by blast
  from init_well_Inr_cases [OF b] assms(3)
  have s: "init_stopped_well wells state w ?ctrl ws_a = Inr ws_b" by simp
  from stopped_default [OF s assms(4-6)] obtain c where
    c: "first_cell wells w = Inr c" "c < length (pressure state)"
    and upd: "bhp ws_b = (bhp ws_a)[w := pressure state ! c]" "thp ws_b = (thp ws_a)[w := unset]"
    by blast
  have "wellRates st ! (?np * w + p) = 0" if p: "p < ?np" for p
  proof -
    from assms(2) p len have "?np * w + p < length (wellRates ws_a)"
      by (simp add: phase_index_bound)
    from assign_rates_value [OF stopped_rates [OF s] _ this] p
    have "wellRates ws_b ! (?np * w + p) = 0" by simp
    with fin p show ?thesis by simp
  qed
  with c upd len assms(2) fin show ?thesis by (simp add: unset_def)
qed

theorem stopped_well_without_pressure_control_witness:
  "init WellState_default (Some example_wells) example_state = Inr example_result
   \<and> well_controls_well_is_stopped (ctrls example_wells ! 3)
   \<and> well_controls_get_current_type (ctrls example_wells ! 3) = Inr OTHER_CONTROL
   \<and> (\<exists>c. first_cell example_wells 3 = Inr c \<and> c < length (pressure example_state)
         \<and> bhp example_result ! 3 = pressure example_state ! c
         \<and> thp example_result ! 3 = - (10 ^ 100)
         \<and> (\<forall>p < number_of_phases example_wells.
               wellRates example_result ! (number_of_phases example_wells * 3 + p) = 0))
   \<and> first_cell example_wells 3 = Inr 1 \<and> bhp example_result ! 3 = 200"
proof -
  have n3: "(3::nat) < number_of_wells example_wells" by code_simp
  have s3: "well_controls_well_is_stopped (ctrls example_wells ! 3)" by code_simp
  have k3: "well_controls_get_current_type (ctrls example_wells ! 3) = Inr OTHER_CONTROL"
    by code_simp
  have v: "first_cell example_wells 3 = Inr 1" "bhp example_result ! 3 = 200" by code_simp+
  from stopped_well_without_pressure_control [OF example_init n3 s3 k3]
  have c: "\<exists>c. first_cell example_wells 3 = Inr c \<and> c < length (pressure example_state)
         \<and> bhp example_result ! 3 = pressure example_state ! c
         \<and> thp example_result ! 3 = - (10 ^ 100)
         \<and> (\<forall>p < number_of_phases example_wells.
               wellRates example_result ! (number_of_phases example_wells * 3 + p) = 0)"
    by simp
  from example_init s3 k3 c v show ?thesis by blast
qed

text \<open>
  \<^bold>\<open>C9.\<close> For an open well whose current control is not SurfaceRate, the rate of
  every phase after \<open>init\<close> is \<open>1e-14\<close> in absolute value, positive for an injector
  and negative for a producer.
\<close>

theorem open_well_small_signed_rates:
  assumes "init ws (Some wells) state = Inr st" and "w < number_of_wells wells"
    and "\<not> well_controls_well_is_stopped (ctrls wells ! w)"
    and "well_controls_get_current_type (ctrls wells ! w) = Inr k"
    and "k \<noteq> SURFACE_RATE"
    and "p < number_of_phases wells"
  shows "\<bar>wellRates st ! (number_of_phases wells * w + p)\<bar> = 1 / 10 ^ 14
         \<and> (type wells ! w = INJECTOR \<and> wellRates st ! (number_of_phases wells * w + p) = 1 / 10 ^ 14
            \<or> type wells ! w = PRODUCER
              \<and> wellRates st ! (number_of_phases wells * w + p) = - (1 / 10 ^ 14))"
proof -
  let ?ctrl = "ctrls wells ! w" and ?np = "number_of_phases wells"
  from init_at_well [OF assms(1,2)] obtain ws_a ws_b where
    b: "init_well wells state w ws_a = Inr ws_b"
    and len: "length (wellRates ws_a) = number_of_wells wells * ?np"
    and fin: "\<forall>p < ?np. wellRates st ! (?np * w + p) = wellRates ws_b ! (?np * w + p)"
    by blast
  note cases = init_well_Inr_cases [OF b]
  from cases assms(3)
  have "init_open_well wells state w (type wells ! w) ?ctrl ws_a = Inr ws_b" by simp
  note r = open_rates_other [OF this assms(4,5)]
  from assms(2,6) len have "?np * w + p < length (wellRates ws_a)"
    by (simp add: phase_index_bound)
  from assign_rates_value [OF r _ this] assms(6)
  have "wellRates ws_b ! (?np * w + p)
          = 1 / 10 ^ 14 * (if type wells ! w = INJECTOR then 1 else - 1)"
    by simp
  with fin assms(6)
  have v: "wellRates st ! (?np * w + p)
          = 1 / 10 ^ 14 * (if type wells ! w = INJECTOR then 1 else - 1)"
    by simp
  from cases have "type wells ! w = INJECTOR \<or> type wells ! w = PRODUCER" by simp
  then show ?thesis
  proof
    assume "type wells ! w = INJECTOR"
    with v show ?thesis by simp
  next
    assume "type wells ! w = PRODUCER"
    with v show ?thesis by (simp add: INJECTOR_def PRODUCER_def)
  qed
qed

theorem open_well_small_signed_rates_witness:
  "init WellState_default (Some example_wells) example_state = Inr example_result
   \<and> \<not> well_controls_well_is_stopped (ctrls example_wells ! 2)
   \<and> well_controls_get_current_type (ctrls example_wells ! 2) = Inr BHP
   \<and> type example_wells ! 2 = INJECTOR
   \<and> \<bar>wellRates example_result ! (number_of_phases example_wells * 2 + 1)\<bar> = 1 / 10 ^ 14
   \<and> wellRates example_result ! 5 = 1 / 10 ^ 14
   \<and> \<not> well_controls_well_is_stopped (ctrls example_wells ! 4)
   \<and> well_controls_get_current_type (ctrls example_wells ! 4) = Inr OTHER_CONTROL
   \<and> type example_wells ! 4 = PRODUCER
   \<and> \<bar>wellRates example_result ! (number_of_phases example_wells * 4 + 0)\<bar> = 1 / 10 ^ 14
   \<and> wellRates example_result ! 8 = - (1 / 10 ^ 14)"
proof -
  have n2: "(2::nat) < number_of_wells example_wells"
    and n4: "(4::nat) < number_of_wells example_wells" by code_simp+
  have p0: "(0::nat) < number_of_phases example_wells"
    and p1: "(1::nat) < number_of_phases example_wells" by code_simp+
  have s2: "\<not> well_controls_well_is_stopped (ctrls example_wells ! 2)" by code_simp
  have k2: "well_controls_get_current_type (ctrls example_wells ! 2) = Inr BHP" by code_simp
  have s4: "\<not> well_controls_well_is_stopped (ctrls example_wells ! 4)" by code_simp
  have k4: "well_controls_get_current_type (ctrls example_wells ! 4) = Inr OTHER_CONTROL"
    by code_simp
  have v: "type example_wells ! 2 = INJECTOR" "wellRates example_result ! 5 = 1 / 10 ^ 14"
    "type example_wells ! 4 = PRODUCER" "wellRates example_result ! 8 = - (1 / 10 ^ 14)"
    by code_simp+
  from open_well_small_signed_rates [OF example_init n2 s2 k2 _ p1]
  have a2: "\<bar>wellRates example_result ! (number_of_phases example_wells * 2 + 1)\<bar> = 1 / 10 ^ 14"
    by simp
  from open_well_small_signed_rates [OF example_init n4 s4 k4 _ p0]
  have a4: "\<bar>wellRates example_result ! (number_of_phases example_wells * 4 + 0)\<bar> = 1 / 10 ^ 14"
    by simp
  from example_init s2 k2 v a2 s4 k4 a4 show ?thesis by blast
qed

section \<open>Properties of the restart offsets\<close>

text \<open>
  \<^bold>\<open>C10.\<close> The restart offsets are the running sums of the array sizes in the order
  bhp, perfPress, perfRates, temperature, wellRates: 0, then the size of bhp, then that
  plus the size of perfPress, then plus the size of perfRates, then plus the size of
  temperature.
\<close>

theorem restart_offsets_cumulative:
  "getRestartBhpOffset ws = 0
   \<and> getRestartPerfPressOffset ws = length (bhp ws)
   \<and> getRestartPerfRatesOffset ws = length (bhp ws) + length (perfPress ws)
   \<and> getRestartTemperatureOffset ws
       = length (bhp ws) + length (perfPress ws) + length (perfRates ws)
   \<and> getRestartWellRatesOffset ws
       = length (bhp ws) + length (perfPress ws) + length (perfRates ws)
         + length (temperature ws)"
  by (simp add: getRestartBhpOffset_def getRestartPerfPressOffset_def
      getRestartPerfRatesOffset_def getRestartTemperatureOffset_def
      getRestartWellRatesOffset_def)

section \<open>Properties of the column extraction\<close>

text \<open>
  \<^bold>\<open>C5.\<close> For a structured grid of size \<open>sx\<close> by \<open>sy\<close> by \<open>sz\<close> with at least one
  layer, the extraction yields exactly \<open>sx * sy\<close> columns, each of length \<open>sz\<close>, and
  column \<open>i + j * sx\<close> lists the cells \<open>i + j * sx + k * sx * sy\<close> for \<open>k\<close> from 0 to
  \<open>sz - 1\<close>, in strictly increasing order. (A grid with no layer has no cell, hence
  no column.) The instances below are the two cases of the test, 1 by 1 by 10 and
  4 by 4 by 10.
\<close>

theorem structured_grid_columns:
  assumes "0 < sz"
  shows "length (extractColumn (GridManager sx sy sz)) = sx * sy
    \<and> (\<forall>i < sx. \<forall>j < sy.
          extractColumn (GridManager sx sy sz) ! (i + j * sx)
            = map (\<lambda>k. i + j * sx + k * sx * sy) [0..<sz]
          \<and> length (extractColumn (GridManager sx sy sz) ! (i + j * sx)) = sz
          \<and> sorted_wrt (<) (extractColumn (GridManager sx sy sz) ! (i + j * sx)))"
proof (intro conjI allI impI)
  note eq = extractColumn_structured [OF assms, of sx sy]
  show "length (extractColumn (GridManager sx sy sz)) = sx * sy"
    by (simp add: eq mult.commute)
  fix i j assume i: "i < sx" and j: "j < sy"
  then have "i + j * sx < Suc j * sx" by simp
  also from j have "Suc j * sx \<le> sy * sx" by (intro mult_le_mono1) simp
  finally have idx: "i + j * sx < sy * sx" .
  from i have dm: "(i + j * sx) div sx = j" "(i + j * sx) mod sx = i" by simp_all
  from idx have "List.product [0..<sy] [0..<sx] ! (i + j * sx) = (j, i)"
    using i j by (simp add: product_nth dm)
  with idx have col: "extractColumn (GridManager sx sy sz) ! (i + j * sx)
      = structured_column sx sy sz i j"
    by (simp add: eq)
  then show "extractColumn (GridManager sx sy sz) ! (i + j * sx)
      = map (\<lambda>k. i + j * sx + k * sx * sy) [0..<sz]"
    by (simp add: structured_column_def)
  from col show "length (extractColumn (GridManager sx sy sz) ! (i + j * sx)) = sz"
    by (simp add: structured_column_def)
  from col structured_column_sorted [OF i j]
  show "sorted_wrt (<) (extractColumn (GridManager sx sy sz) ! (i + j * sx))" by simp
qed

theorem structured_grid_columns_witness:
  "(0::nat) < 10
   \<and> length (extractColumn (GridManager 1 1 10)) = 1
   \<and> extractColumn (GridManager 1 1 10) ! 0 = [0, 1, 2, 3, 4, 5, 6, 7, 8, 9]
   \<and> length (extractColumn (GridManager 4 4 10)) = 16
   \<and> extractColumn (GridManager 4 4 10) ! (1 + 2 * 4)
       = [9, 25, 41, 57, 73, 89, 105, 121, 137, 153]"
proof -
  have pos: "(0::nat) < 10" by simp
  have upt: "[0..<10] = [0, 1, 2, 3, 4, 5, 6, 7, 8, 9 :: nat]" by code_simp
  from structured_grid_columns [OF pos, of 1 1]
  have a: "length (extractColumn (GridManager 1 1 10)) = 1"
    and b: "extractColumn (GridManager 1 1 10) ! 0 = [0, 1, 2, 3, 4, 5, 6, 7, 8, 9]"
    by (simp_all add: upt)
  from structured_grid_columns [OF pos, of 4 4]
  have c: "length (extractColumn (GridManager 4 4 10)) = 16" by simp
  have "(1::nat) < 4" and "(2::nat) < 4" by simp_all
  from structured_grid_columns [OF pos, of 4 4, THEN conjunct2, rule_format, OF this]
  have "extractColumn (GridManager 4 4 10) ! (1 + 2 * 4)
      = map (\<lambda>k. 1 + 2 * 4 + k * 4 * 4) [0..<10]"
    by blast
  then have d: "extractColumn (GridManager 4 4 10) ! (1 + 2 * 4)
      = [9, 25, 41, 57, 73, 89, 105, 121, 137, 153]"
    by (simp add: upt)
  from pos a b c d show ?thesis by blast
qed

end
